theory Spec2Isabelle
  imports Main "HOL-Library.Sublist" "HOL-Library.Multiset" "HOL-Library.Char_ord"
    "HOL-Library.List_Lexorder"
begin

section \<open>JavaScript numbers as the code uses them\<close>

text \<open>
  The numbers of \<^verbatim>\<open>lib/FileSystemInfo.js\<close> are modification times in milliseconds
  (\<^verbatim>\<open>+stat.mtime\<close>, the time value of a Date: an integer of magnitude at most 8.64e15, or
  NaN for an invalid Date), the accuracy (1 .. 2000), their sums, and \<^verbatim>\<open>Infinity\<close>.
  All of them are exact in a double, so a number is an integer, \<^verbatim>\<open>Infinity\<close> or NaN.
\<close>

datatype jsnum = Num int | PosInf | NaN

text \<open>\<^verbatim>\<open>a > b\<close> on numbers: false as soon as one side is NaN.\<close>

fun js_gt :: "jsnum \<Rightarrow> jsnum \<Rightarrow> bool" where
  "js_gt (Num a) (Num b) = (a > b)"
| "js_gt PosInf (Num b) = True"
| "js_gt _ _ = False"

text \<open>
  \<^verbatim>\<open>a > b\<close> where \<open>b\<close> may be \<^verbatim>\<open>undefined\<close> (\<open>None\<close>): \<^verbatim>\<open>undefined\<close> converts to
  NaN, so the comparison is false.
\<close>

fun js_gt_undef :: "jsnum \<Rightarrow> jsnum option \<Rightarrow> bool" where
  "js_gt_undef a None = False"
| "js_gt_undef a (Some b) = js_gt a b"

text \<open>
  \<^verbatim>\<open>a !== b\<close> on values that are a number or \<^verbatim>\<open>undefined\<close> (\<open>None\<close>): NaN differs
  from everything, itself included.
\<close>

fun js_strict_ne :: "jsnum option \<Rightarrow> jsnum option \<Rightarrow> bool" where
  "js_strict_ne None None = False"
| "js_strict_ne (Some a) (Some b) = (a = NaN \<or> b = NaN \<or> a \<noteq> b)"
| "js_strict_ne _ _ = True"

text \<open>Truthiness of a number: \<^verbatim>\<open>0\<close> and NaN are falsy.\<close>

fun js_truthy :: "jsnum \<Rightarrow> bool" where
  "js_truthy (Num n) = (n \<noteq> 0)"
| "js_truthy PosInf = True"
| "js_truthy NaN = False"

text \<open>
  \<^verbatim>\<open>a % b\<close> on integers with \<open>b \<noteq> 0\<close>: the remainder of the truncating division, which
  has the sign of the dividend.
\<close>

definition js_rem :: "int \<Rightarrow> int \<Rightarrow> int" where
  "js_rem a b = sgn a * (\<bar>a\<bar> mod \<bar>b\<bar>)"

text \<open>
  \<^verbatim>\<open>a % k !== 0\<close> for a nonzero integer \<open>k\<close>: \<^verbatim>\<open>Infinity % k\<close> and \<^verbatim>\<open>NaN % k\<close> are NaN,
  and \<^verbatim>\<open>NaN !== 0\<close> is true.
\<close>

fun js_rem_ne0 :: "jsnum \<Rightarrow> int \<Rightarrow> bool" where
  "js_rem_ne0 (Num a) k = (js_rem a k \<noteq> 0)"
| "js_rem_ne0 PosInf k = True"
| "js_rem_ne0 NaN k = True"

text \<open>\<^verbatim>\<open>a + n\<close> for an integer \<open>n\<close>.\<close>

fun js_add :: "jsnum \<Rightarrow> int \<Rightarrow> jsnum" where
  "js_add (Num a) n = Num (a + n)"
| "js_add PosInf n = PosInf"
| "js_add NaN n = NaN"

text \<open>\<^verbatim>\<open>Math.min(a, b)\<close>: NaN as soon as one argument is NaN.\<close>

fun js_min :: "jsnum \<Rightarrow> jsnum \<Rightarrow> jsnum" where
  "js_min NaN b = NaN"
| "js_min a NaN = NaN"
| "js_min (Num a) (Num b) = Num (min a b)"
| "js_min PosInf b = b"
| "js_min a PosInf = a"

section \<open>The accuracy estimator\<close>

text \<open>\<^verbatim>\<open>let FS_ACCURACY = 2000;\<close> the module-level variable's initial value.\<close>

definition FS_ACCURACY_initial :: int where
  "FS_ACCURACY_initial = 2000"

text \<open>
  \<^verbatim>\<open>applyMtime(mtime)\<close> assigns the module-level \<^verbatim>\<open>FS_ACCURACY\<close>; the model takes the
  current value and returns the new one.
\<close>

definition applyMtime :: "int \<Rightarrow> jsnum \<Rightarrow> int" where
  "applyMtime FS_ACCURACY mtime =
     (if FS_ACCURACY > 1 \<and> js_rem_ne0 mtime 2 then 1
      else if FS_ACCURACY > 10 \<and> js_rem_ne0 mtime 20 then 10
      else if FS_ACCURACY > 100 \<and> js_rem_ne0 mtime 200 then 100
      else if FS_ACCURACY > 1000 \<and> js_rem_ne0 mtime 2000 then 1000
      else FS_ACCURACY)"

text \<open>The accuracy after \<^verbatim>\<open>applyMtime\<close> has processed a sequence of mtimes, first to last.\<close>

definition applyMtimes :: "int \<Rightarrow> jsnum list \<Rightarrow> int" where
  "applyMtimes FS_ACCURACY mtimes = foldl applyMtime FS_ACCURACY mtimes"

text \<open>
  The tightening rules as the specification words them for an integer mtime, without the
  guards on the current accuracy: the value the mtime asks for (2000 when it asks for
  nothing).
\<close>

definition accuracy_rule :: "int \<Rightarrow> int" where
  "accuracy_rule mtime =
     (if mtime mod 2 \<noteq> 0 then 1
      else if mtime mod 20 \<noteq> 0 then 10
      else if mtime mod 200 \<noteq> 0 then 100
      else if mtime mod 2000 \<noteq> 0 then 1000
      else 2000)"

definition accuracy_values :: "int set" where
  "accuracy_values = {1, 10, 100, 1000, 2000}"

section \<open>Maps, sets and errors\<close>

text \<open>
  A JavaScript \<^verbatim>\<open>Map\<close> is an association list with distinct keys in insertion order;
  \<^verbatim>\<open>map.get(k)\<close> is \<open>map_of m k\<close> (\<open>None\<close> is \<^verbatim>\<open>undefined\<close>), \<^verbatim>\<open>map.size\<close> is
  \<open>length m\<close>, and \<^verbatim>\<open>map.set(k, v)\<close> replaces the value of a key that is present, in
  place, and appends a new key. Paths are strings; the code compares them exactly.
\<close>

type_synonym ('k, 'v) jsmap = "('k \<times> 'v) list"

fun map_set :: "('k, 'v) jsmap \<Rightarrow> 'k \<Rightarrow> 'v \<Rightarrow> ('k, 'v) jsmap" where
  "map_set [] k v = [(k, v)]"
| "map_set ((k', v') # m) k v =
     (if k' = k then (k, v) # m else (k', v') # map_set m k v)"

text \<open>\<^verbatim>\<open>for (const [key, value] of b) map.set(key, value)\<close>\<close>

fun map_set_all :: "('k, 'v) jsmap \<Rightarrow> ('k, 'v) jsmap \<Rightarrow> ('k, 'v) jsmap" where
  "map_set_all m [] = m"
| "map_set_all m ((key, val) # b) = map_set_all (map_set m key val) b"

text \<open>A JavaScript \<^verbatim>\<open>Set\<close>: a list without duplicates, in insertion order.\<close>

definition set_add :: "'a list \<Rightarrow> 'a \<Rightarrow> 'a list" where
  "set_add s x = (if x \<in> set s then s else s @ [x])"

text \<open>
  The errors of the model: the \<^verbatim>\<open>TypeError\<close> of reading a property of \<^verbatim>\<open>undefined\<close>,
  and the error objects of the file system, which carry a \<^verbatim>\<open>code\<close>.
\<close>

datatype js_error = TypeError | SystemError string

fun code :: "js_error \<Rightarrow> string option" where
  "code TypeError = None"
| "code (SystemError c) = Some c"

text \<open>A value that is \<^verbatim>\<open>undefined\<close> (\<open>None\<close>) is falsy; a \<^verbatim>\<open>Map\<close> object is truthy.\<close>

fun is_defined :: "'a option \<Rightarrow> bool" where
  "is_defined None = False"
| "is_defined (Some x) = True"

section \<open>Module-level helpers\<close>

text \<open>
  \<^verbatim>\<open>mergeMaps(a, b)\<close>. Either argument may be \<^verbatim>\<open>undefined\<close> (\<open>None\<close>), since
  \<^verbatim>\<open>mergeSnapshots\<close> calls it as soon as one side has the map. \<^verbatim>\<open>b.size\<close> on
  \<^verbatim>\<open>undefined\<close> throws a TypeError; \<^verbatim>\<open>new Map(undefined)\<close> is the empty map.
\<close>

definition mergeMaps ::
  "('k, 'v) jsmap option \<Rightarrow> ('k, 'v) jsmap option \<Rightarrow> js_error + ('k, 'v) jsmap option" where
  "mergeMaps a b =
     (case b of
        None \<Rightarrow> Inl TypeError
      | Some bm \<Rightarrow>
          if length bm = 0 then Inr a
          else Inr (Some (map_set_all (case a of None \<Rightarrow> [] | Some am \<Rightarrow> am) bm)))"

text \<open>
  \<^verbatim>\<open>getManagedItem(managedPath, path)\<close>. The loop runs over \<^verbatim>\<open>remaining\<close> from index
  \<open>i\<close>; the model passes the characters from \<open>i\<close> on, and returns the \<open>i\<close> at which the
  loop stops. Characters 47, 92 and 64 are the slash, the backslash and the at sign; none
  of them occurs inside a multi-byte character, so the separators found are those the
  code finds in the UTF-16 string.
\<close>

fun getManagedItem_loop :: "string \<Rightarrow> nat \<Rightarrow> int \<Rightarrow> nat" where
  "getManagedItem_loop [] i slashes = i"
| "getManagedItem_loop (c # cs) i slashes =
     (if c = CHR 0x2F \<or> c = CHR 0x5C then
        (if slashes - 1 = 0 then i else getManagedItem_loop cs (i + 1) (slashes - 1))
      else if c = CHR 0x40 then getManagedItem_loop cs (i + 1) (slashes + 1)
      else getManagedItem_loop cs (i + 1) slashes)"

definition getManagedItem :: "string \<Rightarrow> string \<Rightarrow> string" where
  "getManagedItem managedPath path =
     (let remaining = drop (length managedPath) path;
          i = getManagedItem_loop remaining 0 2
      in take (length managedPath + i) path)"

section \<open>Entries and snapshots\<close>

text \<open>
  A \<^verbatim>\<open>FileSystemInfoEntry\<close>; \<^verbatim>\<open>timestamp\<close> is \<^verbatim>\<open>undefined\<close> (\<open>None\<close>) for a directory.
  Where the code has an entry or \<^verbatim>\<open>null\<close>, the model has an \<open>option\<close>.
\<close>

record FileSystemInfoEntry =
  safeTime :: jsnum
  timestamp :: "jsnum option"

text \<open>
  A value stored in a snapshot: the string \<^verbatim>\<open>"error"\<close>, or what was read. (A hex digest
  and a \<^verbatim>\<open>name@version\<close> string are never the string \<^verbatim>\<open>"error"\<close>.)
\<close>

datatype 'a snap = SnapError | Snap 'a

text \<open>A \<^verbatim>\<open>Snapshot\<close> object: every property may be absent (\<open>None\<close>).\<close>

record Snapshot =
  startTime :: "jsnum option"
  fileTimestamps :: "(string, FileSystemInfoEntry option snap) jsmap option"
  fileHashes :: "(string, string option snap) jsmap option"
  contextTimestamps :: "(string, FileSystemInfoEntry option snap) jsmap option"
  contextHashes :: "(string, string option snap) jsmap option"
  missingTimestamps :: "(string, FileSystemInfoEntry option snap) jsmap option"
  managedItemInfo :: "(string, string snap) jsmap option"

section \<open>The file system and the queues\<close>

text \<open>
  \<^verbatim>\<open>stat.mtime\<close> is a Date; \<^verbatim>\<open>+stat.mtime\<close> is its time value, an integer number of
  milliseconds, or NaN for an invalid Date.
\<close>

datatype Date = Date int | InvalidDate

fun to_number :: "Date \<Rightarrow> jsnum" where
  "to_number (Date t) = Num t"
| "to_number InvalidDate = NaN"

record Stats =
  mtime :: Date
  isFile :: bool
  isDirectory :: bool

text \<open>
  The \<^verbatim>\<open>InputFileSystem\<close> the class is constructed with is outside the repository's
  sources, and so is \<^verbatim>\<open>join\<close> of \<^verbatim>\<open>./util/fs\<close>: they are parameters. Each call gives an
  error or a result. \<^verbatim>\<open>digest\<close> stands for \<^verbatim>\<open>createHash("md4")\<close>, \<^verbatim>\<open>update\<close>,
  \<^verbatim>\<open>digest("hex")\<close> on the text that the updates add up to.
\<close>

record InputFileSystem =
  stat :: "string \<Rightarrow> js_error + Stats"
  readFile :: "string \<Rightarrow> js_error + string"
  readdir :: "string \<Rightarrow> js_error + string list"
  join :: "string \<Rightarrow> string \<Rightarrow> string"
  digest :: "string \<Rightarrow> string"

text \<open>
  The state of a \<^verbatim>\<open>FileSystemInfo\<close> object: \<open>this_fileTimestamps\<close> is
  \<^verbatim>\<open>this._fileTimestamps\<close>, and so on (a name cannot start with an underscore here). A
  cached \<^verbatim>\<open>null\<close> is \<open>Some None\<close>. The module-level \<^verbatim>\<open>FS_ACCURACY\<close> is carried with it.
\<close>

record FileSystemInfo =
  FS_ACCURACY :: int
  this_fileTimestamps :: "(string, FileSystemInfoEntry option) jsmap"
  this_fileHashes :: "(string, string option) jsmap"
  this_contextTimestamps :: "(string, FileSystemInfoEntry option) jsmap"
  this_contextHashes :: "(string, string option) jsmap"
  this_managedItems :: "(string, string) jsmap"
  managedPaths :: "string list"
  managedPathsWithSlash :: "string list"

text \<open>The constructor, in a process that has read no mtime yet.\<close>

definition new_FileSystemInfo :: "InputFileSystem \<Rightarrow> string list \<Rightarrow> FileSystemInfo" where
  "new_FileSystemInfo fs managedPaths' =
     \<lparr> FS_ACCURACY = FS_ACCURACY_initial,
       this_fileTimestamps = [],
       this_fileHashes = [],
       this_contextTimestamps = [],
       this_contextHashes = [],
       this_managedItems = [],
       managedPaths = managedPaths',
       managedPathsWithSlash = map (\<lambda>p. butlast (join fs p ''_'')) managedPaths' \<rparr>"

text \<open>
  \<^verbatim>\<open>AsyncQueue\<close> is outside the repository's sources. When the processor of a queue calls
  its callback for a key, the queue calls every callback added for that key with the same
  \<^verbatim>\<open>(err, entry)\<close>: that outcome is a parameter, a function of the key. A callback whose
  processor never calls back is never called; the callbacks that are called, and their
  order, are given where a call is completed (\<open>order\<close> below).
\<close>

record Queues =
  fileTimestampQueue :: "string \<Rightarrow> js_error + FileSystemInfoEntry option"
  fileHashQueue :: "string \<Rightarrow> js_error + string option"
  contextHashQueue :: "string \<Rightarrow> js_error + string option"
  managedItemQueue :: "string \<Rightarrow> js_error + string"

section \<open>The queue processors\<close>

text \<open>
  \<^verbatim>\<open>_readFileTimestamp(path, callback)\<close>: the new state and the arguments of the one
  callback call, \<open>Inl err\<close> for \<^verbatim>\<open>callback(err)\<close> and \<open>Inr entry\<close> for
  \<^verbatim>\<open>callback(null, entry)\<close>.
\<close>

definition readFileTimestamp ::
  "InputFileSystem \<Rightarrow> FileSystemInfo \<Rightarrow> string \<Rightarrow>
     FileSystemInfo \<times> (js_error + FileSystemInfoEntry option)" where
  "readFileTimestamp fs this path =
     (case stat fs path of
        Inl err \<Rightarrow>
          if code err = Some ''ENOENT'' then
            (this\<lparr>this_fileTimestamps := map_set (this_fileTimestamps this) path None\<rparr>,
             Inr None)
          else (this, Inl err)
      | Inr st \<Rightarrow>
          (let mtime = to_number (Stats.mtime st);
               acc = (if js_truthy mtime then applyMtime (FS_ACCURACY this) mtime
                      else FS_ACCURACY this);
               ts = \<lparr> safeTime = (if js_truthy mtime then js_add mtime acc else PosInf),
                      timestamp = (if isDirectory st then None else Some mtime) \<rparr>
           in (this\<lparr>FS_ACCURACY := acc,
                    this_fileTimestamps := map_set (this_fileTimestamps this) path (Some ts)\<rparr>,
               Inr (Some ts))))"

text \<open>\<^verbatim>\<open>_readFileHash(path, callback)\<close>\<close>

definition readFileHash ::
  "InputFileSystem \<Rightarrow> FileSystemInfo \<Rightarrow> string \<Rightarrow>
     FileSystemInfo \<times> (js_error + string option)" where
  "readFileHash fs this path =
     (case readFile fs path of
        Inl err \<Rightarrow>
          if code err = Some ''ENOENT'' then
            (this\<lparr>this_fileHashes := map_set (this_fileHashes this) path None\<rparr>, Inr None)
          else (this, Inl err)
      | Inr content \<Rightarrow>
          (let d = digest fs content
           in (this\<lparr>this_fileHashes := map_set (this_fileHashes this) path (Some d)\<rparr>,
               Inr (Some d))))"

text \<open>
  \<^verbatim>\<open>getFileHash(path, callback)\<close> and \<^verbatim>\<open>getContextHash(path, callback)\<close>: the cached value,
  which may be \<^verbatim>\<open>null\<close>, or else what the queue calls back with.
\<close>

definition getFileHash :: "Queues \<Rightarrow> FileSystemInfo \<Rightarrow> string \<Rightarrow> js_error + string option" where
  "getFileHash q this path =
     (case map_of (this_fileHashes this) path of
        Some cache \<Rightarrow> Inr cache
      | None \<Rightarrow> fileHashQueue q path)"

definition getContextHash :: "Queues \<Rightarrow> FileSystemInfo \<Rightarrow> string \<Rightarrow> js_error + string option" where
  "getContextHash q this path =
     (case map_of (this_contextHashes this) path of
        Some cache \<Rightarrow> Inr cache
      | None \<Rightarrow> contextHashQueue q path)"

text \<open>
  The iterator that \<^verbatim>\<open>_readContextHash\<close> passes to \<^verbatim>\<open>asyncLib.map\<close>, for one name of the
  directory: what it calls its callback with, \<open>Inl err\<close> for \<^verbatim>\<open>callback(err)\<close> and
  \<open>Inr h\<close> for \<^verbatim>\<open>callback(null, h)\<close>. For a subdirectory the hash passed on is
  \<^verbatim>\<open>hash || ""\<close>. (\<^verbatim>\<open>increaseParallelism\<close> and \<^verbatim>\<open>decreaseParallelism\<close> change how many
  reads the queue runs at once, not their outcomes.)
\<close>

definition readContextHash_child ::
  "InputFileSystem \<Rightarrow> Queues \<Rightarrow> FileSystemInfo \<Rightarrow> string \<Rightarrow> string \<Rightarrow> js_error + string option" where
  "readContextHash_child fs q this path file =
     (let child = join fs path file
      in case stat fs child of
           Inl err \<Rightarrow> Inl err
         | Inr st \<Rightarrow>
             if isFile st then getFileHash q this child
             else if isDirectory st then
               (case getContextHash q this child of
                  Inl err \<Rightarrow> Inl err
                | Inr hash \<Rightarrow> Inr (Some (case hash of None \<Rightarrow> [] | Some h \<Rightarrow> h)))
             else Inr (Some []))"

text \<open>
  An element of the array \<^verbatim>\<open>fileHashes\<close> that the last callback of \<^verbatim>\<open>asyncLib.map\<close>
  receives, when it is a string. An iterator that called back with an error leaves
  \<^verbatim>\<open>undefined\<close> at its index (\<^verbatim>\<open>asyncLib.map\<close> then calls the last callback with the error
  and the array as far as it is filled), and a file that has vanished since its
  \<^verbatim>\<open>stat\<close> gives \<^verbatim>\<open>null\<close>.
\<close>

fun hash_string :: "js_error + string option \<Rightarrow> string option" where
  "hash_string (Inr (Some h)) = Some h"
| "hash_string (Inr None) = None"
| "hash_string (Inl err) = None"

text \<open>
  \<^verbatim>\<open>_readContextHash(path, callback)\<close>: the new state, and the arguments of the callback's
  call if there is one. \<open>normalizeNFC\<close> stands for \<^verbatim>\<open>file.normalize("NFC")\<close>; \<^verbatim>\<open>sort()\<close> orders
  the names by their code units. The last callback of \<^verbatim>\<open>asyncLib.map\<close> ignores its \<^verbatim>\<open>err\<close>
  and passes every name and every element of \<^verbatim>\<open>fileHashes\<close> to \<^verbatim>\<open>hash.update\<close>, which
  takes a string or a buffer and throws on \<^verbatim>\<open>undefined\<close> and on \<^verbatim>\<open>null\<close>: the exception
  leaves the function before the digest is stored and before \<^verbatim>\<open>callback\<close> is called, and
  the result is \<open>None\<close>. The reads of the children are calls of their own of the queues'
  processors; what they store is not part of this call.
\<close>

definition readContextHash ::
  "InputFileSystem \<Rightarrow> (string \<Rightarrow> string) \<Rightarrow> Queues \<Rightarrow> FileSystemInfo \<Rightarrow> string \<Rightarrow>
     FileSystemInfo \<times> (js_error + string option) option" where
  "readContextHash fs normalizeNFC q this path =
     (case readdir fs path of
        Inl err \<Rightarrow>
          if code err = Some ''ENOENT'' then
            (this\<lparr>this_contextHashes := map_set (this_contextHashes this) path None\<rparr>,
             Some (Inr None))
          else (this, Some (Inl err))
      | Inr names \<Rightarrow>
          (let files = sort (filter (\<lambda>file. \<not> prefix ''.'' file) (map normalizeNFC names));
               fileHashes = map (readContextHash_child fs q this path) files
           in if list_all (\<lambda>h. is_defined (hash_string h)) fileHashes then
                (let d = digest fs (concat files @ concat (List.map_filter hash_string fileHashes))
                 in (this\<lparr>this_contextHashes :=
                           map_set (this_contextHashes this) path (Some d)\<rparr>,
                     Some (Inr (Some d))))
              else (this, None)))"

section \<open>Merging snapshots\<close>

text \<open>A snapshot's \<^verbatim>\<open>startTime\<close> used as a condition: absent, \<^verbatim>\<open>0\<close> and NaN are falsy.\<close>

fun startTime_truthy :: "jsnum option \<Rightarrow> bool" where
  "startTime_truthy None = False"
| "startTime_truthy (Some n) = js_truthy n"

text \<open>The first three statements of \<^verbatim>\<open>mergeSnapshots\<close>: the merged \<^verbatim>\<open>startTime\<close>.\<close>

definition mergeSnapshots_startTime :: "jsnum option \<Rightarrow> jsnum option \<Rightarrow> jsnum option" where
  "mergeSnapshots_startTime startTime1 startTime2 =
     (if startTime_truthy startTime1 \<and> startTime_truthy startTime2 then
        (case (startTime1, startTime2) of
           (Some t1, Some t2) \<Rightarrow> Some (js_min t1 t2)
         | _ \<Rightarrow> None)
      else if startTime_truthy startTime2 then startTime2
      else if startTime_truthy startTime1 then startTime1
      else None)"

text \<open>
  One of the six statements
  \<^verbatim>\<open>if (snapshot1.m || snapshot2.m) snapshot.m = mergeMaps(snapshot1.m, snapshot2.m)\<close>:
  the merged property, or the error \<^verbatim>\<open>mergeMaps\<close> throws. A property assigned
  \<^verbatim>\<open>undefined\<close> reads like an absent one.
\<close>

definition mergeSnapshots_property ::
  "('k, 'v) jsmap option \<Rightarrow> ('k, 'v) jsmap option \<Rightarrow> js_error + ('k, 'v) jsmap option" where
  "mergeSnapshots_property m1 m2 =
     (if is_defined m1 \<or> is_defined m2 then mergeMaps m1 m2 else Inr None)"

definition mergeSnapshots :: "Snapshot \<Rightarrow> Snapshot \<Rightarrow> js_error + Snapshot" where
  "mergeSnapshots snapshot1 snapshot2 =
     (case mergeSnapshots_property (fileTimestamps snapshot1) (fileTimestamps snapshot2) of
        Inl e \<Rightarrow> Inl e
      | Inr ft \<Rightarrow>
     (case mergeSnapshots_property (fileHashes snapshot1) (fileHashes snapshot2) of
        Inl e \<Rightarrow> Inl e
      | Inr fh \<Rightarrow>
     (case mergeSnapshots_property (contextTimestamps snapshot1) (contextTimestamps snapshot2) of
        Inl e \<Rightarrow> Inl e
      | Inr ct \<Rightarrow>
     (case mergeSnapshots_property (contextHashes snapshot1) (contextHashes snapshot2) of
        Inl e \<Rightarrow> Inl e
      | Inr ch \<Rightarrow>
     (case mergeSnapshots_property (missingTimestamps snapshot1) (missingTimestamps snapshot2) of
        Inl e \<Rightarrow> Inl e
      | Inr mt \<Rightarrow>
     (case mergeSnapshots_property (managedItemInfo snapshot1) (managedItemInfo snapshot2) of
        Inl e \<Rightarrow> Inl e
      | Inr mi \<Rightarrow>
          Inr \<lparr> startTime = mergeSnapshots_startTime (startTime snapshot1) (startTime snapshot2),
                fileTimestamps = ft, fileHashes = fh, contextTimestamps = ct,
                contextHashes = ch, missingTimestamps = mt, managedItemInfo = mi \<rparr>))))))"

section \<open>Calls that wait for queued reads\<close>

text \<open>
  \<^verbatim>\<open>createSnapshot\<close> and \<^verbatim>\<open>checkSnapshotValid\<close> keep a counter \<^verbatim>\<open>jobs\<close> (a number, which
  \<^verbatim>\<open>checkSnapshotValid\<close> sets to NaN), add callbacks to the queues, and call their own
  \<^verbatim>\<open>callback\<close>. The model records the callbacks added to the queues, in the order of
  the \<^verbatim>\<open>add\<close> calls (\<open>queued\<close>), and the calls of \<^verbatim>\<open>callback\<close> with their two arguments
  (\<open>called\<close>; \<open>None\<close> is a \<^verbatim>\<open>null\<close> error).
\<close>

record ('r, 'j) call =
  jobs :: jsnum
  called :: "(js_error option \<times> 'r) list"
  queued :: "'j list"

section \<open>Validating a snapshot\<close>

fun checkHash :: "string option \<Rightarrow> string option snap \<Rightarrow> bool" where
  "checkHash current SnapError = False"
| "checkHash current (Snap s) = (current = s)"

fun checkExistance ::
  "FileSystemInfoEntry option \<Rightarrow> FileSystemInfoEntry option snap \<Rightarrow> bool" where
  "checkExistance current SnapError = False"
| "checkExistance current (Snap s) = ((current = None) = (s = None))"

text \<open>
  \<^verbatim>\<open>checkFile(current, snap)\<close>, a closure over the snapshot's \<^verbatim>\<open>startTime\<close>. The code
  reads \<^verbatim>\<open>snap.timestamp\<close> only after it has returned for a \<^verbatim>\<open>null\<close> \<open>snap\<close> beside an
  existing \<open>current\<close>, so the last case is never reached.
\<close>

fun checkFile ::
  "jsnum option \<Rightarrow> FileSystemInfoEntry option \<Rightarrow> FileSystemInfoEntry option snap \<Rightarrow> bool" where
  "checkFile startTime' current SnapError = False"
| "checkFile startTime' current (Snap s) =
     (if (case current of None \<Rightarrow> False
          | Some c \<Rightarrow> js_gt_undef (safeTime c) startTime') then False
      else if (current = None) \<noteq> (s = None) then False
      else (case current of
              None \<Rightarrow> True
            | Some c \<Rightarrow>
                (case s of
                   Some se \<Rightarrow>
                     (if is_defined (timestamp se)
                         \<and> js_strict_ne (timestamp c) (timestamp se) then False
                      else True)
                 | None \<Rightarrow> False)))"

text \<open>A callback that \<^verbatim>\<open>checkSnapshotValid\<close> adds to a queue, with the path and the
  snapshot's value it closes over.\<close>

datatype probe =
    FileTimestampProbe string "FileSystemInfoEntry option snap"
  | FileHashProbe string "string option snap"
  | ContextHashProbe string "string option snap"
  | MissingTimestampProbe string "FileSystemInfoEntry option snap"

type_synonym validation = "(bool, probe) call"

definition checkSnapshotValid_jobDone :: "validation \<Rightarrow> validation" where
  "checkSnapshotValid_jobDone v =
     (let j = js_add (jobs v) (- 1)
      in if j = Num 0 then v\<lparr>jobs := j, called := called v @ [(None, True)]\<rparr>
         else v\<lparr>jobs := j\<rparr>)"

definition checkSnapshotValid_invalid :: "validation \<Rightarrow> validation" where
  "checkSnapshotValid_invalid v =
     (if js_gt (jobs v) (Num 0) then v\<lparr>jobs := NaN, called := called v @ [(None, False)]\<rparr>
      else v)"

text \<open>
  The body of each of the four loops over a map of the snapshot: a cached value is
  checked at once, and otherwise \<^verbatim>\<open>jobs++\<close> and a callback is added to the queue. The
  loops differ in the cache, the check and the queue.
\<close>

definition checkSnapshotValid_entry ::
  "(string, 'c) jsmap \<Rightarrow> ('c \<Rightarrow> 'v \<Rightarrow> bool) \<Rightarrow> (string \<Rightarrow> 'v \<Rightarrow> probe) \<Rightarrow>
     validation \<Rightarrow> string \<times> 'v \<Rightarrow> validation" where
  "checkSnapshotValid_entry cache_map check mk v entry =
     (case entry of
        (path, snapval) \<Rightarrow>
          (case map_of cache_map path of
             Some cache \<Rightarrow>
               if \<not> check cache snapval then checkSnapshotValid_invalid v else v
           | None \<Rightarrow>
               v\<lparr>jobs := js_add (jobs v) 1, queued := queued v @ [mk path snapval]\<rparr>))"

definition checkSnapshotValid_loop ::
  "(string, 'c) jsmap \<Rightarrow> ('c \<Rightarrow> 'v \<Rightarrow> bool) \<Rightarrow> (string \<Rightarrow> 'v \<Rightarrow> probe) \<Rightarrow>
     (string, 'v) jsmap option \<Rightarrow> validation \<Rightarrow> validation" where
  "checkSnapshotValid_loop cache_map check mk snapshot_map v =
     (case snapshot_map of
        None \<Rightarrow> v
      | Some m \<Rightarrow> foldl (checkSnapshotValid_entry cache_map check mk) v m)"

text \<open>The synchronous part of \<^verbatim>\<open>checkSnapshotValid\<close>: the loops, then the last
  \<^verbatim>\<open>jobDone()\<close>.\<close>

definition checkSnapshotValid_loops :: "FileSystemInfo \<Rightarrow> Snapshot \<Rightarrow> validation" where
  "checkSnapshotValid_loops this snapshot =
     (let v0 = \<lparr> jobs = Num 1, called = [], queued = [] \<rparr>;
          v1 = checkSnapshotValid_loop (this_fileTimestamps this)
                 (checkFile (startTime snapshot)) FileTimestampProbe
                 (fileTimestamps snapshot) v0;
          v2 = checkSnapshotValid_loop (this_fileHashes this) checkHash FileHashProbe
                 (fileHashes snapshot) v1;
          v3 = (case contextTimestamps snapshot of
                  None \<Rightarrow> v2
                | Some m \<Rightarrow> if length m > 0 then checkSnapshotValid_invalid v2 else v2);
          v4 = checkSnapshotValid_loop (this_contextHashes this) checkHash ContextHashProbe
                 (contextHashes snapshot) v3
      in checkSnapshotValid_loop (this_fileTimestamps this) checkExistance
           MissingTimestampProbe (missingTimestamps snapshot) v4)"

definition checkSnapshotValid_sync :: "FileSystemInfo \<Rightarrow> Snapshot \<Rightarrow> validation" where
  "checkSnapshotValid_sync this snapshot =
     checkSnapshotValid_jobDone (checkSnapshotValid_loops this snapshot)"

text \<open>A queue calls one of the callbacks back, with the outcome of the read for its path.\<close>

fun checkSnapshotValid_callback ::
  "jsnum option \<Rightarrow> Queues \<Rightarrow> validation \<Rightarrow> probe \<Rightarrow> validation" where
  "checkSnapshotValid_callback startTime' q v (FileTimestampProbe path ts) =
     (case fileTimestampQueue q path of
        Inl err \<Rightarrow> checkSnapshotValid_invalid v
      | Inr entry \<Rightarrow>
          if \<not> checkFile startTime' entry ts then checkSnapshotValid_invalid v
          else checkSnapshotValid_jobDone v)"
| "checkSnapshotValid_callback startTime' q v (FileHashProbe path hash) =
     (case fileHashQueue q path of
        Inl err \<Rightarrow> checkSnapshotValid_invalid v
      | Inr entry \<Rightarrow>
          if \<not> checkHash entry hash then checkSnapshotValid_invalid v
          else checkSnapshotValid_jobDone v)"
| "checkSnapshotValid_callback startTime' q v (ContextHashProbe path hash) =
     (case contextHashQueue q path of
        Inl err \<Rightarrow> checkSnapshotValid_invalid v
      | Inr entry \<Rightarrow>
          if \<not> checkHash entry hash then checkSnapshotValid_invalid v
          else checkSnapshotValid_jobDone v)"
| "checkSnapshotValid_callback startTime' q v (MissingTimestampProbe path ts) =
     (case fileTimestampQueue q path of
        Inl err \<Rightarrow> checkSnapshotValid_invalid v
      | Inr entry \<Rightarrow>
          if \<not> checkExistance entry ts then checkSnapshotValid_invalid v
          else checkSnapshotValid_jobDone v)"

text \<open>
  The calls of \<^verbatim>\<open>callback\<close> that \<^verbatim>\<open>checkSnapshotValid(snapshot, callback)\<close> has made once
  the queues have called back in the order \<open>order\<close>.
\<close>

definition checkSnapshotValid_in_order ::
  "FileSystemInfo \<Rightarrow> Queues \<Rightarrow> Snapshot \<Rightarrow> probe list \<Rightarrow> (js_error option \<times> bool) list" where
  "checkSnapshotValid_in_order this q snapshot order =
     called (foldl (checkSnapshotValid_callback (startTime snapshot) q)
               (checkSnapshotValid_sync this snapshot) order)"

text \<open>The same when the queues call back in the order of the \<^verbatim>\<open>add\<close> calls.\<close>

definition checkSnapshotValid ::
  "FileSystemInfo \<Rightarrow> Queues \<Rightarrow> Snapshot \<Rightarrow> (js_error option \<times> bool) list" where
  "checkSnapshotValid this q snapshot =
     checkSnapshotValid_in_order this q snapshot
       (queued (checkSnapshotValid_sync this snapshot))"

section \<open>Creating a snapshot\<close>

text \<open>
  The local variables of one \<^verbatim>\<open>createSnapshot\<close> call: the six maps (\<open>local_fileTimestamps\<close>
  is the local \<^verbatim>\<open>fileTimestamps\<close>, and so on), the set \<^verbatim>\<open>managedItems\<close>, and the
  counter, the callback's calls and the queued callbacks of \<open>call\<close>.
\<close>

datatype job =
    FileHashJob string
  | FileTimestampJob string
  | ContextHashJob string
  | MissingTimestampJob string
  | ManagedItemJob string

record createSnapshot_locals = "(Snapshot, job) call" +
  local_fileTimestamps :: "(string, FileSystemInfoEntry option snap) jsmap"
  local_fileHashes :: "(string, string option snap) jsmap"
  local_contextTimestamps :: "(string, FileSystemInfoEntry option snap) jsmap"
  local_contextHashes :: "(string, string option snap) jsmap"
  local_missingTimestamps :: "(string, FileSystemInfoEntry option snap) jsmap"
  local_managedItemInfo :: "(string, string snap) jsmap"
  managedItems :: "string list"

text \<open>\<^verbatim>\<open>if (m.size !== 0) snapshot.m = m\<close>\<close>

definition nonempty_map :: "('k, 'v) jsmap \<Rightarrow> ('k, 'v) jsmap option" where
  "nonempty_map m = (if length m \<noteq> 0 then Some m else None)"

text \<open>The snapshot that \<^verbatim>\<open>jobDone\<close> builds when the counter reaches zero.\<close>

definition createSnapshot_snapshot :: "jsnum option \<Rightarrow> createSnapshot_locals \<Rightarrow> Snapshot" where
  "createSnapshot_snapshot startTime' l =
     \<lparr> startTime = (if startTime_truthy startTime' then startTime' else None),
       fileTimestamps = nonempty_map (local_fileTimestamps l),
       fileHashes = nonempty_map (local_fileHashes l),
       contextTimestamps = nonempty_map (local_contextTimestamps l),
       contextHashes = nonempty_map (local_contextHashes l),
       missingTimestamps = nonempty_map (local_missingTimestamps l),
       managedItemInfo = nonempty_map (local_managedItemInfo l) \<rparr>"

definition createSnapshot_jobDone ::
  "jsnum option \<Rightarrow> createSnapshot_locals \<Rightarrow> createSnapshot_locals" where
  "createSnapshot_jobDone startTime' l =
     (let j = js_add (jobs l) (- 1)
      in if j = Num 0 then
           l\<lparr>jobs := j, called := called l @ [(None, createSnapshot_snapshot startTime' l)]\<rparr>
         else l\<lparr>jobs := j\<rparr>)"

text \<open>
  The inner loop over \<^verbatim>\<open>this.managedPathsWithSlash\<close>: the first managed path that the
  path starts with, if there is one.
\<close>

definition managedPath_of :: "FileSystemInfo \<Rightarrow> string \<Rightarrow> string option" where
  "managedPath_of this path =
     find (\<lambda>managedPath. prefix managedPath path) (managedPathsWithSlash this)"

text \<open>\<^verbatim>\<open>jobs++; queue.add(path, ...)\<close>\<close>

definition createSnapshot_add :: "job \<Rightarrow> createSnapshot_locals \<Rightarrow> createSnapshot_locals" where
  "createSnapshot_add j l = l\<lparr>jobs := js_add (jobs l) 1, queued := queued l @ [j]\<rparr>"

text \<open>The bodies of the loops over \<^verbatim>\<open>files\<close>, \<^verbatim>\<open>directories\<close> and \<^verbatim>\<open>missing\<close>.\<close>

definition createSnapshot_file ::
  "FileSystemInfo \<Rightarrow> bool \<Rightarrow> createSnapshot_locals \<Rightarrow> string \<Rightarrow> createSnapshot_locals" where
  "createSnapshot_file this hash l path =
     (case managedPath_of this path of
        Some managedPath \<Rightarrow>
          l\<lparr>managedItems := set_add (managedItems l) (getManagedItem managedPath path)\<rparr>
      | None \<Rightarrow>
          if hash then
            (case map_of (this_fileHashes this) path of
               Some cache \<Rightarrow>
                 l\<lparr>local_fileHashes := map_set (local_fileHashes l) path (Snap cache)\<rparr>
             | None \<Rightarrow> createSnapshot_add (FileHashJob path) l)
          else
            (case map_of (this_fileTimestamps this) path of
               Some cache \<Rightarrow>
                 l\<lparr>local_fileTimestamps := map_set (local_fileTimestamps l) path (Snap cache)\<rparr>
             | None \<Rightarrow> createSnapshot_add (FileTimestampJob path) l))"

definition createSnapshot_directory ::
  "FileSystemInfo \<Rightarrow> bool \<Rightarrow> createSnapshot_locals \<Rightarrow> string \<Rightarrow> createSnapshot_locals" where
  "createSnapshot_directory this hash l path =
     (case managedPath_of this path of
        Some managedPath \<Rightarrow>
          l\<lparr>managedItems := set_add (managedItems l) (getManagedItem managedPath path)\<rparr>
      | None \<Rightarrow>
          if hash then
            (case map_of (this_contextHashes this) path of
               Some cache \<Rightarrow>
                 l\<lparr>local_contextHashes := map_set (local_contextHashes l) path (Snap cache)\<rparr>
             | None \<Rightarrow> createSnapshot_add (ContextHashJob path) l)
          else
            l\<lparr>local_contextTimestamps :=
                map_set (local_contextTimestamps l) path SnapError\<rparr>)"

definition createSnapshot_missing ::
  "FileSystemInfo \<Rightarrow> createSnapshot_locals \<Rightarrow> string \<Rightarrow> createSnapshot_locals" where
  "createSnapshot_missing this l path =
     (case managedPath_of this path of
        Some managedPath \<Rightarrow>
          l\<lparr>managedItems := set_add (managedItems l) (getManagedItem managedPath path)\<rparr>
      | None \<Rightarrow>
          (case map_of (this_fileTimestamps this) path of
             Some cache \<Rightarrow>
               l\<lparr>local_missingTimestamps :=
                   map_set (local_missingTimestamps l) path (Snap cache)\<rparr>
           | None \<Rightarrow> createSnapshot_add (MissingTimestampJob path) l))"

text \<open>The body of the loop over \<^verbatim>\<open>managedItems\<close>.\<close>

definition createSnapshot_managedItem ::
  "FileSystemInfo \<Rightarrow> createSnapshot_locals \<Rightarrow> string \<Rightarrow> createSnapshot_locals" where
  "createSnapshot_managedItem this l path =
     (case map_of (this_managedItems this) path of
        Some cache \<Rightarrow>
          l\<lparr>local_managedItemInfo := map_set (local_managedItemInfo l) path (Snap cache)\<rparr>
      | None \<Rightarrow> createSnapshot_add (ManagedItemJob path) l)"

text \<open>\<^verbatim>\<open>if (paths) { for (const path of paths) ... }\<close>: an absent argument is \<open>None\<close>.\<close>

definition for_each ::
  "('s \<Rightarrow> 'a \<Rightarrow> 's) \<Rightarrow> 'a list option \<Rightarrow> 's \<Rightarrow> 's" where
  "for_each body paths l = (case paths of None \<Rightarrow> l | Some ps \<Rightarrow> foldl body l ps)"

text \<open>
  The synchronous part of \<^verbatim>\<open>createSnapshot\<close>: the loops, then the last \<^verbatim>\<open>jobDone()\<close>;
  \<open>hash\<close> is \<^verbatim>\<open>options && options.hash\<close>.
\<close>

definition createSnapshot_loops ::
  "FileSystemInfo \<Rightarrow> string list option \<Rightarrow> string list option \<Rightarrow> string list option \<Rightarrow>
     bool \<Rightarrow> createSnapshot_locals" where
  "createSnapshot_loops this files directories missing hash =
     (let l0 = \<lparr> jobs = Num 1, called = [], queued = [],
                 local_fileTimestamps = [], local_fileHashes = [],
                 local_contextTimestamps = [], local_contextHashes = [],
                 local_missingTimestamps = [], local_managedItemInfo = [],
                 managedItems = [] \<rparr>;
          l1 = for_each (createSnapshot_file this hash) files l0;
          l2 = for_each (createSnapshot_directory this hash) directories l1;
          l3 = for_each (createSnapshot_missing this) missing l2
      in foldl (createSnapshot_managedItem this) l3 (managedItems l3))"

definition createSnapshot_sync ::
  "FileSystemInfo \<Rightarrow> jsnum option \<Rightarrow> string list option \<Rightarrow> string list option \<Rightarrow>
     string list option \<Rightarrow> bool \<Rightarrow> createSnapshot_locals" where
  "createSnapshot_sync this startTime' files directories missing hash =
     createSnapshot_jobDone startTime'
       (createSnapshot_loops this files directories missing hash)"

text \<open>A queue calls one of the callbacks back: the entry or \<^verbatim>\<open>"error"\<close> is stored, then
  \<^verbatim>\<open>jobDone()\<close>.\<close>

fun createSnapshot_store :: "Queues \<Rightarrow> createSnapshot_locals \<Rightarrow> job \<Rightarrow> createSnapshot_locals" where
  "createSnapshot_store q l (FileHashJob path) =
     l\<lparr>local_fileHashes := map_set (local_fileHashes l) path
         (case fileHashQueue q path of Inl err \<Rightarrow> SnapError | Inr entry \<Rightarrow> Snap entry)\<rparr>"
| "createSnapshot_store q l (FileTimestampJob path) =
     l\<lparr>local_fileTimestamps := map_set (local_fileTimestamps l) path
         (case fileTimestampQueue q path of Inl err \<Rightarrow> SnapError | Inr entry \<Rightarrow> Snap entry)\<rparr>"
| "createSnapshot_store q l (ContextHashJob path) =
     l\<lparr>local_contextHashes := map_set (local_contextHashes l) path
         (case contextHashQueue q path of Inl err \<Rightarrow> SnapError | Inr entry \<Rightarrow> Snap entry)\<rparr>"
| "createSnapshot_store q l (MissingTimestampJob path) =
     l\<lparr>local_missingTimestamps := map_set (local_missingTimestamps l) path
         (case fileTimestampQueue q path of Inl err \<Rightarrow> SnapError | Inr entry \<Rightarrow> Snap entry)\<rparr>"
| "createSnapshot_store q l (ManagedItemJob path) =
     l\<lparr>local_managedItemInfo := map_set (local_managedItemInfo l) path
         (case managedItemQueue q path of Inl err \<Rightarrow> SnapError | Inr entry \<Rightarrow> Snap entry)\<rparr>"

definition createSnapshot_callback ::
  "jsnum option \<Rightarrow> Queues \<Rightarrow> createSnapshot_locals \<Rightarrow> job \<Rightarrow> createSnapshot_locals" where
  "createSnapshot_callback startTime' q l j =
     createSnapshot_jobDone startTime' (createSnapshot_store q l j)"

text \<open>
  The calls of \<^verbatim>\<open>callback\<close> that \<^verbatim>\<open>createSnapshot\<close> has made once the queues have called
  back in the order \<open>order\<close>, and the same for the order of the \<^verbatim>\<open>add\<close> calls.
\<close>

definition createSnapshot_in_order ::
  "FileSystemInfo \<Rightarrow> Queues \<Rightarrow> jsnum option \<Rightarrow> string list option \<Rightarrow> string list option \<Rightarrow>
     string list option \<Rightarrow> bool \<Rightarrow> job list \<Rightarrow> (js_error option \<times> Snapshot) list" where
  "createSnapshot_in_order this q startTime' files directories missing hash order =
     called (foldl (createSnapshot_callback startTime' q)
               (createSnapshot_sync this startTime' files directories missing hash) order)"

definition createSnapshot ::
  "FileSystemInfo \<Rightarrow> Queues \<Rightarrow> jsnum option \<Rightarrow> string list option \<Rightarrow> string list option \<Rightarrow>
     string list option \<Rightarrow> bool \<Rightarrow> (js_error option \<times> Snapshot) list" where
  "createSnapshot this q startTime' files directories missing hash =
     createSnapshot_in_order this q startTime' files directories missing hash
       (queued (createSnapshot_sync this startTime' files directories missing hash))"

text \<open>
  The snapshot of \<^verbatim>\<open>PackFileCacheStrategy.storeBuildDependencies\<close>:
  \<^verbatim>\<open>createSnapshot(undefined, files, directories, missing, { hash: true }, ...)\<close> on the
  three sets that \<^verbatim>\<open>resolveBuildDependencies\<close> returned.
\<close>

definition storeBuildDependencies_createSnapshot ::
  "FileSystemInfo \<Rightarrow> Queues \<Rightarrow> string list \<Rightarrow> string list \<Rightarrow> string list \<Rightarrow>
     (js_error option \<times> Snapshot) list" where
  "storeBuildDependencies_createSnapshot this q files directories missing =
     createSnapshot this q None (Some files) (Some directories) (Some missing) True"

section \<open>The pack\<close>

definition MAX_INLINE_SIZE :: int where
  "MAX_INLINE_SIZE = 20000"

text \<open>
  A \<^verbatim>\<open>PackEntry\<close> as \<^verbatim>\<open>_unpack\<close> reads it: \<^verbatim>\<open>data\<close> and \<^verbatim>\<open>size\<close>, each of which may be
  \<^verbatim>\<open>undefined\<close> (\<open>None\<close>). The field \<open>size'\<close> is \<^verbatim>\<open>size\<close>.
\<close>

record 'd PackEntry =
  data :: "'d option"
  size' :: "int option"

text \<open>\<^verbatim>\<open>size > n\<close> and \<^verbatim>\<open>size <= n\<close>: both false when \<^verbatim>\<open>size\<close> is \<^verbatim>\<open>undefined\<close>.\<close>

fun undef_gt :: "int option \<Rightarrow> int \<Rightarrow> bool" where
  "undef_gt None n = False"
| "undef_gt (Some a) n = (a > n)"

fun undef_le :: "int option \<Rightarrow> int \<Rightarrow> bool" where
  "undef_le None n = False"
| "undef_le (Some a) n = (a \<le> n)"

text \<open>
  A value of the \<^verbatim>\<open>content\<close> map: data (possibly \<^verbatim>\<open>undefined\<close>), or a function that
  resolves to a \<^verbatim>\<open>PackEntry\<close>, given by the entry it resolves to.
\<close>

datatype 'd content = Data "'d option" | Loader "'d PackEntry"

text \<open>A \<^verbatim>\<open>Pack\<close>; \<open>logger\<close> holds the messages passed to \<^verbatim>\<open>this.logger.log\<close>.\<close>

record 'd Pack =
  version :: string
  etags :: "(string, string) jsmap"
  content :: "(string, 'd content) jsmap"
  buildSnapshot :: "Snapshot option"
  lastAccess :: "(string, int) jsmap"
  lastSizes :: "(string, int option) jsmap"
  unserializable :: "string list"
  used :: "string list"
  invalid :: bool
  logger :: "string list"

definition new_Pack :: "string \<Rightarrow> 'd Pack" where
  "new_Pack version' =
     \<lparr> version = version', etags = [], content = [], buildSnapshot = None, lastAccess = [],
       lastSizes = [], unserializable = [], used = [], invalid = False, logger = [] \<rparr>"

text \<open>\<^verbatim>\<open>map.delete(k)\<close>\<close>

definition map_delete :: "('k, 'v) jsmap \<Rightarrow> 'k \<Rightarrow> ('k, 'v) jsmap" where
  "map_delete m k = filter (\<lambda>kv. fst kv \<noteq> k) m"

text \<open>\<^verbatim>\<open>_unpack(identifier, entry, currentlyInline)\<close>: the pack afterwards and the value
  returned.\<close>

definition unpack :: "'d Pack \<Rightarrow> string \<Rightarrow> 'd PackEntry \<Rightarrow> bool \<Rightarrow> 'd Pack \<times> 'd option" where
  "unpack this identifier entry currentlyInline =
     (case data entry of
        None \<Rightarrow>
          (this\<lparr>unserializable := set_add (unserializable this) identifier,
                lastSizes := map_delete (lastSizes this) identifier\<rparr>,
           None)
      | Some d \<Rightarrow>
          (let this1 = this\<lparr>lastSizes := map_set (lastSizes this) identifier (size' entry)\<rparr>
           in if currentlyInline then
                (if undef_gt (size' entry) MAX_INLINE_SIZE then
                   (this1\<lparr>invalid := True,
                          logger := logger this1 @
                            [''Moved '' @ identifier @
                             '' from inline to lazy section for better performance.'']\<rparr>,
                    Some d)
                 else (this1, Some d))
              else
                (if undef_le (size' entry) MAX_INLINE_SIZE then
                   (this1\<lparr>content := map_set (content this1) identifier (Data (Some d)),
                          invalid := True,
                          logger := logger this1 @
                            [''Moved '' @ identifier @
                             '' from lazy to inline section for better performance.'']\<rparr>,
                    Some d)
                 else (this1, Some d))))"

text \<open>
  What \<^verbatim>\<open>deserialize\<close> reads after an identifier: a function (a lazy entry) or a
  \<^verbatim>\<open>PackEntry\<close> (an inline entry).
\<close>

datatype 'd stored = Lazy "'d PackEntry" | Inline "'d PackEntry"

text \<open>The body of the loop of \<^verbatim>\<open>deserialize\<close>.\<close>

definition deserialize_entry :: "'d Pack \<Rightarrow> string \<times> 'd stored \<Rightarrow> 'd Pack" where
  "deserialize_entry this item =
     (case item of
        (identifier, Lazy e) \<Rightarrow>
          this\<lparr>content := map_set (content this) identifier (Loader e)\<rparr>
      | (identifier, Inline e) \<Rightarrow>
          (case unpack this identifier e True of
             (this', d) \<Rightarrow> this'\<lparr>content := map_set (content this') identifier (Data d)\<rparr>))"

text \<open>
  \<^verbatim>\<open>deserialize({ read, logger })\<close> on a pack as the constructor left it: the values
  read, in order, are the version, the etags, the unserializable set, the last accesses,
  the build snapshot and the pairs of an identifier and an entry, up to \<^verbatim>\<open>null\<close>.
\<close>

definition deserialize ::
  "'d Pack \<Rightarrow> string \<Rightarrow> (string, string) jsmap \<Rightarrow> string list \<Rightarrow> (string, int) jsmap \<Rightarrow>
     Snapshot option \<Rightarrow> (string \<times> 'd stored) list \<Rightarrow> 'd Pack" where
  "deserialize this version' etags' unserializable' lastAccess' buildSnapshot' items =
     foldl deserialize_entry
       (this\<lparr>logger := [], version := version', etags := etags',
             unserializable := unserializable', lastAccess := lastAccess',
             buildSnapshot := buildSnapshot', content := []\<rparr>)
       items"

text \<open>
  \<^verbatim>\<open>get(identifier, etag)\<close>: the pack afterwards and the value returned, or the value the
  returned promise resolves to (\<open>None\<close> is \<^verbatim>\<open>undefined\<close>).
\<close>

definition get :: "'d Pack \<Rightarrow> string \<Rightarrow> string \<Rightarrow> 'd Pack \<times> 'd option" where
  "get this identifier etag =
     (case map_of (etags this) identifier of
        None \<Rightarrow> (this, None)
      | Some etagInCache \<Rightarrow>
          if etagInCache \<noteq> etag then (this, None)
          else
            (let this1 = this\<lparr>used := set_add (used this) identifier\<rparr>
             in case map_of (content this1) identifier of
                  Some (Loader entry) \<Rightarrow> unpack this1 identifier entry False
                | Some (Data d) \<Rightarrow> (this1, d)
                | None \<Rightarrow> (this1, None)))"

section \<open>Predicates for stating the properties\<close>

text \<open>
  The counter of a call while its synchronous part runs: \<^verbatim>\<open>jobs\<close> is one more than the
  number of callbacks added to the queues, and \<^verbatim>\<open>callback\<close> has not been called.
\<close>

definition counting :: "('r, 'j, 'z) call_scheme \<Rightarrow> bool" where
  "counting v \<longleftrightarrow> jobs v = Num (1 + int (length (queued v))) \<and> called v = []"

text \<open>A validation after \<^verbatim>\<open>invalid()\<close>: \<^verbatim>\<open>jobs\<close> is NaN and \<^verbatim>\<open>callback(null, false)\<close> is
  the one call made.\<close>

definition rejected :: "validation \<Rightarrow> bool" where
  "rejected v \<longleftrightarrow> jobs v = NaN \<and> called v = [(None, False)]"

text \<open>The queue calls the callback of a probe back with an error.\<close>

fun probe_error :: "Queues \<Rightarrow> probe \<Rightarrow> bool" where
  "probe_error q (FileTimestampProbe path ts) = isl (fileTimestampQueue q path)"
| "probe_error q (FileHashProbe path hash) = isl (fileHashQueue q path)"
| "probe_error q (ContextHashProbe path hash) = isl (contextHashQueue q path)"
| "probe_error q (MissingTimestampProbe path ts) = isl (fileTimestampQueue q path)"

text \<open>The queue calls the callback of a probe back with a value that passes its check.\<close>

fun probe_ok :: "jsnum option \<Rightarrow> Queues \<Rightarrow> probe \<Rightarrow> bool" where
  "probe_ok st q (FileTimestampProbe path ts) =
     (case fileTimestampQueue q path of Inl err \<Rightarrow> False | Inr entry \<Rightarrow> checkFile st entry ts)"
| "probe_ok st q (FileHashProbe path hash) =
     (case fileHashQueue q path of Inl err \<Rightarrow> False | Inr entry \<Rightarrow> checkHash entry hash)"
| "probe_ok st q (ContextHashProbe path hash) =
     (case contextHashQueue q path of Inl err \<Rightarrow> False | Inr entry \<Rightarrow> checkHash entry hash)"
| "probe_ok st q (MissingTimestampProbe path ts) =
     (case fileTimestampQueue q path of Inl err \<Rightarrow> False | Inr entry \<Rightarrow> checkExistance entry ts)"

section \<open>Inputs for the examples\<close>

text \<open>A file system on which every read fails with \<^verbatim>\<open>EBUSY\<close>, and whose \<^verbatim>\<open>join\<close> puts a
  slash between its arguments; queues whose reads all fail with \<^verbatim>\<open>EBUSY\<close>; and the
  snapshot \<^verbatim>\<open>{}\<close>.\<close>

definition busy_file_system :: InputFileSystem where
  "busy_file_system =
     \<lparr> stat = (\<lambda>path. Inl (SystemError ''EBUSY'')),
       readFile = (\<lambda>path. Inl (SystemError ''EBUSY'')),
       readdir = (\<lambda>path. Inl (SystemError ''EBUSY'')),
       join = (\<lambda>a b. a @ ''/'' @ b),
       digest = (\<lambda>content. content) \<rparr>"

definition busy_queues :: Queues where
  "busy_queues =
     \<lparr> fileTimestampQueue = (\<lambda>path. Inl (SystemError ''EBUSY'')),
       fileHashQueue = (\<lambda>path. Inl (SystemError ''EBUSY'')),
       contextHashQueue = (\<lambda>path. Inl (SystemError ''EBUSY'')),
       managedItemQueue = (\<lambda>path. Inl (SystemError ''EBUSY'')) \<rparr>"

definition empty_snapshot :: Snapshot where
  "empty_snapshot =
     \<lparr> startTime = None, fileTimestamps = None, fileHashes = None, contextTimestamps = None,
       contextHashes = None, missingTimestamps = None, managedItemInfo = None \<rparr>"

section \<open>Properties of the accuracy estimator\<close>

lemma js_rem_eq_0_iff: "b \<noteq> 0 \<Longrightarrow> js_rem a b = 0 \<longleftrightarrow> a mod b = 0"
proof -
  assume b: "b \<noteq> 0"
  have "js_rem a b = 0 \<longleftrightarrow> \<bar>a\<bar> mod \<bar>b\<bar> = 0"
    by (cases "a = 0") (simp_all add: js_rem_def sgn_if)
  also have "\<dots> \<longleftrightarrow> \<bar>b\<bar> dvd \<bar>a\<bar>" by (simp add: dvd_eq_mod_eq_0)
  also have "\<dots> \<longleftrightarrow> b dvd a" by simp
  also have "\<dots> \<longleftrightarrow> a mod b = 0" by (simp add: dvd_eq_mod_eq_0)
  finally show ?thesis .
qed

lemma applyMtime_rule:
  "a \<in> accuracy_values \<Longrightarrow> applyMtime a (Num m) = min a (accuracy_rule m)"
  unfolding accuracy_values_def applyMtime_def accuracy_rule_def
  by (auto simp: js_rem_eq_0_iff)

lemma applyMtime_values:
  "a \<in> accuracy_values \<Longrightarrow> applyMtime a m \<in> accuracy_values"
  unfolding accuracy_values_def applyMtime_def by auto

lemma applyMtime_le: "a \<in> accuracy_values \<Longrightarrow> applyMtime a m \<le> a"
  unfolding accuracy_values_def applyMtime_def by auto

lemma applyMtimes_values:
  "a \<in> accuracy_values \<Longrightarrow> applyMtimes a ms \<in> accuracy_values"
  unfolding applyMtimes_def
  by (induction ms arbitrary: a) (simp_all add: applyMtime_values)

lemma applyMtimes_le: "a \<in> accuracy_values \<Longrightarrow> applyMtimes a ms \<le> a"
  unfolding applyMtimes_def
proof (induction ms arbitrary: a)
  case Nil
  then show ?case by simp
next
  case (Cons m ms)
  have "foldl applyMtime (applyMtime a m) ms \<le> applyMtime a m"
    using Cons.IH [OF applyMtime_values [OF Cons.prems]] .
  also have "\<dots> \<le> a" using Cons.prems by (rule applyMtime_le)
  finally show ?case by simp
qed

lemma applyMtimes_append:
  "applyMtimes a (ms @ ms') = applyMtimes (applyMtimes a ms) ms'"
  by (simp add: applyMtimes_def)

lemma initial_accuracy_value: "FS_ACCURACY_initial \<in> accuracy_values"
  by (simp add: FS_ACCURACY_initial_def accuracy_values_def)

section \<open>Properties of maps\<close>

lemma is_defined_iff: "is_defined x \<longleftrightarrow> x \<noteq> None"
  by (cases x) simp_all

lemma map_of_map_set: "map_of (map_set m k v) = (map_of m)(k \<mapsto> v)"
  by (induction m k v rule: map_set.induct) (auto simp: fun_eq_iff)

lemma map_of_map_set_all: "map_of (map_set_all m b) = map_of m ++ map_of (rev b)"
  by (induction m b rule: map_set_all.induct) (auto simp: map_of_map_set fun_eq_iff map_add_def split: option.splits)

lemma map_of_rev_distinct: "distinct (map fst b) \<Longrightarrow> map_of (rev b) = map_of b"
proof (induction b)
  case Nil
  then show ?case by simp
next
  case (Cons x xs)
  then have "fst x \<notin> dom (map_of xs)" by (simp add: dom_map_of_conv_image_fst)
  then have "map_of xs (fst x) = None" by blast
  with Cons show ?case
    by (cases x) (auto simp: fun_eq_iff map_add_def split: option.splits)
qed

section \<open>Properties of the validation's counter\<close>

lemma probe_error_not_ok: "probe_error q p \<Longrightarrow> \<not> probe_ok st q p"
  by (cases p) (auto simp: isl_def)

lemma callback_cases:
  "checkSnapshotValid_callback st q v p =
     (if probe_ok st q p then checkSnapshotValid_jobDone v else checkSnapshotValid_invalid v)"
  by (cases p) (auto split: sum.splits)

lemma invalid_rejected: "rejected v \<Longrightarrow> checkSnapshotValid_invalid v = v"
  by (simp add: rejected_def checkSnapshotValid_invalid_def)

lemma jobDone_rejected: "rejected v \<Longrightarrow> rejected (checkSnapshotValid_jobDone v)"
  by (simp add: rejected_def checkSnapshotValid_jobDone_def)

lemma callback_rejected: "rejected v \<Longrightarrow> rejected (checkSnapshotValid_callback st q v p)"
  by (simp add: callback_cases invalid_rejected jobDone_rejected)

lemma callbacks_rejected:
  "rejected v \<Longrightarrow> rejected (foldl (checkSnapshotValid_callback st q) v order)"
  by (induction order arbitrary: v) (simp_all add: callback_rejected)

lemma invalid_counting: "counting v \<Longrightarrow> rejected (checkSnapshotValid_invalid v)"
  by (simp add: rejected_def counting_def checkSnapshotValid_invalid_def)

lemma invalid_open: "counting v \<or> rejected v \<Longrightarrow> rejected (checkSnapshotValid_invalid v)"
  using invalid_counting invalid_rejected by force

lemma entry_open:
  "counting v \<or> rejected v \<Longrightarrow>
   counting (checkSnapshotValid_entry c check mk v e) \<or> rejected (checkSnapshotValid_entry c check mk v e)"
proof (cases e)
  case (Pair path snapval)
  assume op: "counting v \<or> rejected v"
  show ?thesis
  proof (cases "map_of c path")
    case None
    with Pair op show ?thesis
      by (auto simp: checkSnapshotValid_entry_def counting_def rejected_def)
  next
    case (Some cache)
    with Pair op invalid_open [OF op] show ?thesis
      by (auto simp: checkSnapshotValid_entry_def)
  qed
qed

lemma entry_rejected:
  "rejected v \<Longrightarrow> rejected (checkSnapshotValid_entry c check mk v e)"
  by (cases e) (auto simp: checkSnapshotValid_entry_def invalid_rejected rejected_def split: option.splits)

lemma loop_open:
  "counting v \<or> rejected v \<Longrightarrow>
   counting (checkSnapshotValid_loop c check mk m v) \<or> rejected (checkSnapshotValid_loop c check mk m v)"
proof (cases m)
  case None
  then show "counting v \<or> rejected v \<Longrightarrow> ?thesis" by (simp add: checkSnapshotValid_loop_def)
next
  case (Some es)
  have "counting v \<or> rejected v \<Longrightarrow>
     counting (foldl (checkSnapshotValid_entry c check mk) v es)
     \<or> rejected (foldl (checkSnapshotValid_entry c check mk) v es)"
  proof (induction es arbitrary: v)
    case Nil
    then show ?case by simp
  next
    case (Cons e es)
    from Cons.IH [OF entry_open [OF Cons.prems]] show ?case by simp
  qed
  with Some show "counting v \<or> rejected v \<Longrightarrow> ?thesis" by (simp add: checkSnapshotValid_loop_def)
qed

lemma loop_rejected:
  "rejected v \<Longrightarrow> rejected (checkSnapshotValid_loop c check mk m v)"
proof (cases m)
  case None
  then show "rejected v \<Longrightarrow> ?thesis" by (simp add: checkSnapshotValid_loop_def)
next
  case (Some es)
  have "rejected v \<Longrightarrow> rejected (foldl (checkSnapshotValid_entry c check mk) v es)"
    by (induction es arbitrary: v) (simp_all add: entry_rejected)
  with Some show "rejected v \<Longrightarrow> ?thesis" by (simp add: checkSnapshotValid_loop_def)
qed

lemma loops_open:
  "counting (checkSnapshotValid_loops this snapshot) \<or> rejected (checkSnapshotValid_loops this snapshot)"
proof -
  let ?v0 = "\<lparr> jobs = Num 1, called = [], queued = [] \<rparr> :: validation"
  have v0: "counting ?v0 \<or> rejected ?v0" by (simp add: counting_def)
  let ?v1 = "checkSnapshotValid_loop (this_fileTimestamps this)
                 (checkFile (startTime snapshot)) FileTimestampProbe
                 (fileTimestamps snapshot) ?v0"
  have v1: "counting ?v1 \<or> rejected ?v1" by (rule loop_open [OF v0])
  let ?v2 = "checkSnapshotValid_loop (this_fileHashes this) checkHash FileHashProbe
                 (fileHashes snapshot) ?v1"
  have v2: "counting ?v2 \<or> rejected ?v2" by (rule loop_open [OF v1])
  let ?v3 = "(case contextTimestamps snapshot of
                  None \<Rightarrow> ?v2
                | Some m \<Rightarrow> if length m > 0 then checkSnapshotValid_invalid ?v2 else ?v2)"
  have v3: "counting ?v3 \<or> rejected ?v3"
    using v2 invalid_open [OF v2] by (auto split: option.splits)
  let ?v4 = "checkSnapshotValid_loop (this_contextHashes this) checkHash ContextHashProbe
                 (contextHashes snapshot) ?v3"
  have v4: "counting ?v4 \<or> rejected ?v4" by (rule loop_open [OF v3])
  show ?thesis
    unfolding checkSnapshotValid_loops_def Let_def by (rule loop_open [OF v4])
qed

lemma loops_rejected_contextTimestamps:
  assumes "contextTimestamps snapshot = Some m" "m \<noteq> []"
  shows "rejected (checkSnapshotValid_loops this snapshot)"
proof -
  let ?v0 = "\<lparr> jobs = Num 1, called = [], queued = [] \<rparr> :: validation"
  have v0: "counting ?v0 \<or> rejected ?v0" by (simp add: counting_def)
  let ?v1 = "checkSnapshotValid_loop (this_fileTimestamps this)
                 (checkFile (startTime snapshot)) FileTimestampProbe
                 (fileTimestamps snapshot) ?v0"
  have v1: "counting ?v1 \<or> rejected ?v1" by (rule loop_open [OF v0])
  let ?v2 = "checkSnapshotValid_loop (this_fileHashes this) checkHash FileHashProbe
                 (fileHashes snapshot) ?v1"
  have v2: "counting ?v2 \<or> rejected ?v2" by (rule loop_open [OF v1])
  let ?v3 = "(case contextTimestamps snapshot of
                  None \<Rightarrow> ?v2
                | Some m \<Rightarrow> if length m > 0 then checkSnapshotValid_invalid ?v2 else ?v2)"
  have v3: "rejected ?v3"
    using assms invalid_open [OF v2] by simp
  let ?v4 = "checkSnapshotValid_loop (this_contextHashes this) checkHash ContextHashProbe
                 (contextHashes snapshot) ?v3"
  have v4: "rejected ?v4" by (rule loop_rejected [OF v3])
  show ?thesis
    unfolding checkSnapshotValid_loops_def Let_def by (rule loop_rejected [OF v4])
qed

lemma checkSnapshotValid_callbacks_counted:
  "jobs v = Num (int (length order)) \<Longrightarrow> called v = [] \<Longrightarrow> order \<noteq> [] \<Longrightarrow>
   called (foldl (checkSnapshotValid_callback st q) v order) =
     [(None, list_all (probe_ok st q) order)]"
proof (induction order arbitrary: v)
  case Nil
  then show ?case by simp
next
  case (Cons p order)
  show ?case
  proof (cases "probe_ok st q p")
    case False
    have "rejected (checkSnapshotValid_invalid v)"
      using Cons.prems by (simp add: rejected_def checkSnapshotValid_invalid_def)
    then have "rejected (foldl (checkSnapshotValid_callback st q) (checkSnapshotValid_invalid v) order)"
      by (rule callbacks_rejected)
    moreover have "checkSnapshotValid_callback st q v p = checkSnapshotValid_invalid v"
      using False by (simp add: callback_cases)
    ultimately show ?thesis using False by (simp add: rejected_def)
  next
    case True
    show ?thesis
    proof (cases order)
      case Nil
      moreover have "checkSnapshotValid_callback st q v p = checkSnapshotValid_jobDone v"
        using True by (simp add: callback_cases)
      ultimately show ?thesis using True Cons.prems
        by (simp add: checkSnapshotValid_jobDone_def)
    next
      case (Cons p' order')
      let ?v = "checkSnapshotValid_jobDone v"
      have j: "jobs ?v = Num (int (length order))" and c: "called ?v = []"
        using Cons.prems Cons by (simp_all add: checkSnapshotValid_jobDone_def Let_def)
      have "order \<noteq> []" using Cons by simp
      moreover have "checkSnapshotValid_callback st q v p = checkSnapshotValid_jobDone v"
        using True by (simp add: callback_cases)
      ultimately show ?thesis using Cons.IH [OF j c] True by simp
    qed
  qed
qed

lemma jobDone_queued: "queued (checkSnapshotValid_jobDone v) = queued v"
  by (simp add: checkSnapshotValid_jobDone_def Let_def)

lemma jobDone_counting:
  "counting v \<Longrightarrow>
   jobs (checkSnapshotValid_jobDone v) = Num (int (length (queued v)))
   \<and> called (checkSnapshotValid_jobDone v) = (if queued v = [] then [(None, True)] else [])"
  by (simp add: counting_def checkSnapshotValid_jobDone_def Let_def)

lemma checkSnapshotValid_result:
  assumes "length order = length (queued (checkSnapshotValid_sync this snapshot))"
  shows "\<exists>valid. checkSnapshotValid_in_order this q snapshot order = [(None, valid)]
           \<and> (valid \<longrightarrow> list_all (probe_ok (startTime snapshot) q) order)"
proof -
  let ?L = "checkSnapshotValid_loops this snapshot"
  let ?S = "checkSnapshotValid_sync this snapshot"
  have len: "length order = length (queued ?L)"
    using assms by (simp add: checkSnapshotValid_sync_def jobDone_queued)
  from loops_open [of this snapshot] show ?thesis
  proof
    assume "rejected ?L"
    then have "rejected ?S" by (simp add: checkSnapshotValid_sync_def jobDone_rejected)
    then have "rejected (foldl (checkSnapshotValid_callback (startTime snapshot) q) ?S order)"
      by (rule callbacks_rejected)
    then have "checkSnapshotValid_in_order this q snapshot order = [(None, False)]"
      by (simp add: checkSnapshotValid_in_order_def rejected_def)
    then show ?thesis by blast
  next
    assume cnt: "counting ?L"
    note S = jobDone_counting [OF cnt, folded checkSnapshotValid_sync_def]
    show ?thesis
    proof (cases order)
      case Nil
      with len S have "called ?S = [(None, True)]" by simp
      with Nil show ?thesis by (auto simp add: checkSnapshotValid_in_order_def)
    next
      case (Cons p ps)
      with len S have c: "called ?S = []" and j: "jobs ?S = Num (int (length order))"
        by auto
      have "order \<noteq> []" using Cons by simp
      from checkSnapshotValid_callbacks_counted [OF j c this, of "startTime snapshot" q]
      show ?thesis by (auto simp add: checkSnapshotValid_in_order_def)
    qed
  qed
qed

text \<open>A processor that calls back with an error, or does not call back, has stored
  nothing.\<close>

lemma readFileTimestamp_error_stores_nothing:
  "isl (snd (readFileTimestamp fs this path)) \<Longrightarrow> fst (readFileTimestamp fs this path) = this"
  by (auto simp: readFileTimestamp_def Let_def split: sum.splits if_splits)

lemma readFileHash_error_stores_nothing:
  "isl (snd (readFileHash fs this path)) \<Longrightarrow> fst (readFileHash fs this path) = this"
  by (auto simp: readFileHash_def Let_def split: sum.splits if_splits)

lemma readContextHash_error_stores_nothing:
  "snd (readContextHash fs normalizeNFC q this path) = Some (Inl err) \<Longrightarrow>
   fst (readContextHash fs normalizeNFC q this path) = this"
  by (auto simp: readContextHash_def Let_def split: sum.splits if_splits)

lemma readContextHash_no_callback_stores_nothing:
  "snd (readContextHash fs normalizeNFC q this path) = None \<Longrightarrow>
   fst (readContextHash fs normalizeNFC q this path) = this"
  by (auto simp: readContextHash_def Let_def split: sum.splits if_splits)

section \<open>Properties of the snapshot's counter and maps\<close>

lemma add_counting: "counting l \<Longrightarrow> counting (createSnapshot_add j l)"
  by (simp add: counting_def createSnapshot_add_def)

lemma file_counting: "counting l \<Longrightarrow> counting (createSnapshot_file this hash l path)"
  by (auto simp: createSnapshot_file_def add_counting split: option.splits)
     (simp_all add: counting_def)

lemma directory_counting: "counting l \<Longrightarrow> counting (createSnapshot_directory this hash l path)"
  by (auto simp: createSnapshot_directory_def add_counting split: option.splits)
     (simp_all add: counting_def)

lemma missing_counting: "counting l \<Longrightarrow> counting (createSnapshot_missing this l path)"
  by (auto simp: createSnapshot_missing_def add_counting split: option.splits)
     (simp_all add: counting_def)

lemma managedItem_counting: "counting l \<Longrightarrow> counting (createSnapshot_managedItem this l path)"
  by (auto simp: createSnapshot_managedItem_def add_counting split: option.splits)
     (simp_all add: counting_def)

lemma foldl_counting:
  "(\<And>l x. counting l \<Longrightarrow> counting (body l x)) \<Longrightarrow> counting l \<Longrightarrow> counting (foldl body l xs)"
  by (induction xs arbitrary: l) simp_all

lemma for_each_counting:
  "(\<And>l x. counting l \<Longrightarrow> counting (body l x)) \<Longrightarrow> counting l \<Longrightarrow> counting (for_each body xs l)"
  by (cases xs) (simp_all add: for_each_def foldl_counting)

lemma loops_counting: "counting (createSnapshot_loops this files directories missing hash)"
  unfolding createSnapshot_loops_def Let_def
  by (intro foldl_counting for_each_counting managedItem_counting missing_counting
        directory_counting file_counting)
     (auto simp add: counting_def)

lemma snapshot_jobs_update:
  "createSnapshot_snapshot st (l\<lparr>jobs := n\<rparr>) = createSnapshot_snapshot st l"
  by (simp add: createSnapshot_snapshot_def)

lemma store_jobs_update:
  "createSnapshot_store q (l\<lparr>jobs := n\<rparr>) j = (createSnapshot_store q l j)\<lparr>jobs := n\<rparr>"
  by (cases j) simp_all

lemma foldl_store_jobs_update:
  "foldl (createSnapshot_store q) (l\<lparr>jobs := n\<rparr>) order
     = (foldl (createSnapshot_store q) l order)\<lparr>jobs := n\<rparr>"
  by (induction order arbitrary: l) (simp_all add: store_jobs_update)

lemma store_call: "jobs (createSnapshot_store q l j) = jobs l
   \<and> called (createSnapshot_store q l j) = called l
   \<and> queued (createSnapshot_store q l j) = queued l"
  by (cases j) simp_all

lemma createSnapshot_callbacks_counted:
  "jobs l = Num (int (length order)) \<Longrightarrow> called l = [] \<Longrightarrow> order \<noteq> [] \<Longrightarrow>
   called (foldl (createSnapshot_callback st q) l order) =
     [(None, createSnapshot_snapshot st (foldl (createSnapshot_store q) l order))]"
proof (induction order arbitrary: l)
  case Nil
  then show ?case by simp
next
  case (Cons j order)
  let ?l = "createSnapshot_store q l j"
  show ?case
  proof (cases order)
    case Nil
    with Cons.prems show ?thesis
      by (simp add: createSnapshot_callback_def createSnapshot_jobDone_def store_call)
  next
    case (Cons j' order')
    let ?n = "Num (int (length order))"
    have cb: "createSnapshot_callback st q l j = ?l\<lparr>jobs := ?n\<rparr>"
      using Cons.prems Cons
      by (simp add: createSnapshot_callback_def createSnapshot_jobDone_def store_call Let_def)
    have "order \<noteq> []" using Cons by simp
    from Cons.IH [of "?l\<lparr>jobs := ?n\<rparr>", OF _ _ this] Cons.prems
    show ?thesis
      by (simp add: cb store_call foldl_store_jobs_update snapshot_jobs_update)
  qed
qed

lemma createSnapshot_in_order_result:
  assumes "length order = length (queued (createSnapshot_loops this files directories missing hash))"
  shows "createSnapshot_in_order this q st files directories missing hash order =
     [(None, createSnapshot_snapshot st
        (foldl (createSnapshot_store q) (createSnapshot_loops this files directories missing hash) order))]"
proof -
  let ?L = "createSnapshot_loops this files directories missing hash"
  have cnt: "jobs ?L = Num (1 + int (length (queued ?L)))" "called ?L = []"
    using loops_counting [of this files directories missing hash] by (simp_all add: counting_def)
  show ?thesis
  proof (cases order)
    case Nil
    with assms cnt show ?thesis
      by (simp add: createSnapshot_in_order_def createSnapshot_sync_def createSnapshot_jobDone_def)
  next
    case (Cons j js)
    let ?n = "Num (int (length order))"
    have ne: "queued ?L \<noteq> []" using assms Cons by auto
    have S: "createSnapshot_sync this st files directories missing hash = ?L\<lparr>jobs := ?n\<rparr>"
      using assms cnt ne by (simp add: createSnapshot_sync_def createSnapshot_jobDone_def Let_def)
    have "order \<noteq> []" using Cons by simp
    from createSnapshot_callbacks_counted [of "?L\<lparr>jobs := ?n\<rparr>" order st q, OF _ _ this] cnt
    show ?thesis
      by (simp add: createSnapshot_in_order_def S foldl_store_jobs_update snapshot_jobs_update)
  qed
qed

lemma store_contextTimestamps:
  "local_contextTimestamps (createSnapshot_store q l j) = local_contextTimestamps l"
  by (cases j) simp_all

lemma foldl_store_contextTimestamps:
  "local_contextTimestamps (foldl (createSnapshot_store q) l order) = local_contextTimestamps l"
  by (induction order arbitrary: l) (simp_all add: store_contextTimestamps)

lemma managedItem_contextTimestamps:
  "local_contextTimestamps (createSnapshot_managedItem this l path) = local_contextTimestamps l"
  by (simp add: createSnapshot_managedItem_def createSnapshot_add_def split: option.splits)

lemma foldl_managedItem_contextTimestamps:
  "local_contextTimestamps (foldl (createSnapshot_managedItem this) l items) = local_contextTimestamps l"
  by (induction items arbitrary: l) (simp_all add: managedItem_contextTimestamps)

lemma missing_contextTimestamps:
  "local_contextTimestamps (createSnapshot_missing this l path) = local_contextTimestamps l"
  by (simp add: createSnapshot_missing_def createSnapshot_add_def split: option.splits)

lemma for_each_missing_contextTimestamps:
  "local_contextTimestamps (for_each (createSnapshot_missing this) missing l) = local_contextTimestamps l"
proof (cases missing)
  case None
  then show ?thesis by (simp add: for_each_def)
next
  case (Some ps)
  have "local_contextTimestamps (foldl (createSnapshot_missing this) l ps) = local_contextTimestamps l"
    by (induction ps arbitrary: l) (simp_all add: missing_contextTimestamps)
  with Some show ?thesis by (simp add: for_each_def)
qed

lemma directory_keeps_error:
  "map_of (local_contextTimestamps l) dir = Some SnapError \<Longrightarrow>
   map_of (local_contextTimestamps (createSnapshot_directory this False l path)) dir = Some SnapError"
  by (simp add: createSnapshot_directory_def map_of_map_set split: option.splits)

lemma directory_sets_error:
  "managedPath_of this dir = None \<Longrightarrow>
   map_of (local_contextTimestamps (createSnapshot_directory this False l dir)) dir = Some SnapError"
  by (simp add: createSnapshot_directory_def map_of_map_set)

lemma directories_keep_error:
  "map_of (local_contextTimestamps l) dir = Some SnapError \<Longrightarrow>
   map_of (local_contextTimestamps (foldl (createSnapshot_directory this False) l dirs)) dir = Some SnapError"
  by (induction dirs arbitrary: l) (simp_all add: directory_keeps_error)

lemma directories_set_error:
  "dir \<in> set dirs \<Longrightarrow> managedPath_of this dir = None \<Longrightarrow>
   map_of (local_contextTimestamps (foldl (createSnapshot_directory this False) l dirs)) dir = Some SnapError"
proof (induction dirs arbitrary: l)
  case Nil
  then show ?case by simp
next
  case (Cons d dirs)
  show ?case
  proof (cases "d = dir")
    case True
    then show ?thesis
      using Cons.prems(2) by (simp add: directories_keep_error directory_sets_error)
  next
    case False
    with Cons show ?thesis by simp
  qed
qed

lemma loops_contextTimestamps_error:
  assumes "dir \<in> set dirs" "managedPath_of this dir = None"
  shows "map_of (local_contextTimestamps (createSnapshot_loops this files (Some dirs) missing False)) dir
           = Some SnapError"
  unfolding createSnapshot_loops_def Let_def
  by (simp add: foldl_managedItem_contextTimestamps for_each_missing_contextTimestamps)
     (simp add: for_each_def directories_set_error [OF assms])

lemma managedPath_of_None:
  "managedPath_of this path = None \<longleftrightarrow> \<not> (\<exists>mp \<in> set (managedPathsWithSlash this). prefix mp path)"
  by (auto simp add: managedPath_of_def find_None_iff)

section \<open>Properties of the pack\<close>

lemma map_of_map_delete: "map_of (map_delete m k) k = None"
  by (induction m) (auto simp: map_delete_def)

lemma unpack_invalid_mono: "invalid this \<Longrightarrow> invalid (fst (unpack this identifier entry inline))"
  by (simp add: unpack_def Let_def split: option.splits)

lemma deserialize_entry_invalid_mono: "invalid this \<Longrightarrow> invalid (deserialize_entry this item)"
proof (cases item)
  case (Pair ident e)
  assume inv: "invalid this"
  show ?thesis
  proof (cases e)
    case (Lazy x)
    with Pair inv show ?thesis by (simp add: deserialize_entry_def)
  next
    case (Inline x)
    obtain this' r where u: "unpack this ident x True = (this', r)" by (cases "unpack this ident x True")
    have "invalid this'" using unpack_invalid_mono [OF inv, of ident x True] u by simp
    with Pair Inline u show ?thesis by (simp add: deserialize_entry_def)
  qed
qed

lemma foldl_deserialize_entry_invalid_mono:
  "invalid this \<Longrightarrow> invalid (foldl deserialize_entry this items)"
  by (induction items arbitrary: this) (simp_all add: deserialize_entry_invalid_mono)

lemma deserialize_entry_inline_invalid:
  "data entry = Some d \<Longrightarrow> undef_gt (size' entry) MAX_INLINE_SIZE \<Longrightarrow>
   invalid (deserialize_entry this (identifier, Inline entry))"
  by (simp add: deserialize_entry_def unpack_def Let_def)

lemma foldl_deserialize_entry_invalid:
  "(identifier, Inline entry) \<in> set items \<Longrightarrow> data entry = Some d \<Longrightarrow>
   undef_gt (size' entry) MAX_INLINE_SIZE \<Longrightarrow>
   invalid (foldl deserialize_entry this items)"
proof (induction items arbitrary: this)
  case Nil
  then show ?case by simp
next
  case (Cons item items)
  show ?case
  proof (cases "item = (identifier, Inline entry)")
    case True
    then have "invalid (deserialize_entry this item)"
      using Cons.prems(2,3) by (simp add: deserialize_entry_inline_invalid)
    then show ?thesis by (simp add: foldl_deserialize_entry_invalid_mono)
  next
    case False
    with Cons.prems(1) have "(identifier, Inline entry) \<in> set items" by simp
    from Cons.IH [OF this Cons.prems(2,3)] show ?thesis by simp
  qed
qed

section \<open>Properties of merging\<close>

text \<open>What \<^verbatim>\<open>mergeMaps\<close> gives when its second argument is a map, and when it is not.\<close>

lemma mergeMaps_union:
  assumes "bm \<noteq> []" "distinct (map fst bm)"
  shows "\<exists>m. mergeMaps a (Some bm) = Inr (Some m)
           \<and> map_of m = map_of (case a of None \<Rightarrow> [] | Some am \<Rightarrow> am) ++ map_of bm"
  using assms by (simp add: mergeMaps_def map_of_map_set_all map_of_rev_distinct)

lemma mergeMaps_empty: "mergeMaps a (Some []) = Inr a"
  by (simp add: mergeMaps_def)

lemma mergeMaps_undefined: "mergeMaps a None = Inl TypeError"
  by (simp add: mergeMaps_def)

lemma map_set_present:
  "distinct (map fst m) \<Longrightarrow> (k, v) \<in> set m \<Longrightarrow> map_set m k v = m"
proof (induction m)
  case Nil
  then show ?case by simp
next
  case (Cons p m)
  then show ?case by (cases p) (auto simp: rev_image_eqI)
qed

lemma map_set_all_present:
  "distinct (map fst m) \<Longrightarrow> set b \<subseteq> set m \<Longrightarrow> map_set_all m b = m"
  by (induction m b rule: map_set_all.induct) (simp_all add: map_set_present)

lemma mergeMaps_idempotent:
  "distinct (map fst m) \<Longrightarrow> mergeMaps (Some m) (Some m) = Inr (Some m)"
  by (simp add: mergeMaps_def map_set_all_present)

lemma mergeSnapshots_startTime_rule:
  "mergeSnapshots_startTime (Some (Num a)) (Some (Num b)) =
     (if a \<noteq> 0 \<and> b \<noteq> 0 then Some (Num (min a b))
      else if b \<noteq> 0 then Some (Num b) else if a \<noteq> 0 then Some (Num a) else None)"
  "t \<noteq> 0 \<Longrightarrow> mergeSnapshots_startTime (Some (Num t)) None = Some (Num t)"
  "t \<noteq> 0 \<Longrightarrow> mergeSnapshots_startTime None (Some (Num t)) = Some (Num t)"
  "mergeSnapshots_startTime None None = None"
  by (simp_all add: mergeSnapshots_startTime_def)

section \<open>The claims\<close>

text \<open>
  Claim C1. \<^verbatim>\<open>checkFile(current, snap)\<close> judges an entry invalid exactly when the
  snapshot's value is \<^verbatim>\<open>"error"\<close>; or the current entry exists and
  \<^verbatim>\<open>current.safeTime > startTime\<close>; or exactly one of the current entry and the
  snapshot's value is \<^verbatim>\<open>null\<close>; or both exist, the snapshot's timestamp is defined and
  \<^verbatim>\<open>current.timestamp !== snap.timestamp\<close>. In every other case it judges it valid.
\<close>

theorem checkFile_cases:
  "\<not> checkFile startTime' current snap \<longleftrightarrow>
     snap = SnapError
     \<or> (\<exists>c. current = Some c \<and> js_gt_undef (safeTime c) startTime')
     \<or> (current = None) \<noteq> (snap = Snap None)
     \<or> (\<exists>c se. current = Some c \<and> snap = Snap (Some se) \<and> timestamp se \<noteq> None
           \<and> js_strict_ne (timestamp c) (timestamp se))"
proof (cases snap)
  case SnapError
  then show ?thesis by simp
next
  case (Snap s)
  show ?thesis
  proof (cases current)
    case None
    with Snap show ?thesis by (cases s) simp_all
  next
    case (Some c)
    with Snap show ?thesis
      by (cases s; cases "timestamp (the s)") auto
  qed
qed

theorem checkFile_cases_witness:
  "\<not> checkFile (Some (Num 2000)) (Some \<lparr>safeTime = Num 4500, timestamp = Some (Num 2500)\<rparr>)
       (Snap (Some \<lparr>safeTime = Num 4500, timestamp = Some (Num 2500)\<rparr>))
   \<and> checkFile (Some (Num 2000)) (Some \<lparr>safeTime = Num 1000, timestamp = Some (Num 500)\<rparr>)
       (Snap (Some \<lparr>safeTime = Num 1000, timestamp = Some (Num 500)\<rparr>))"
  using checkFile_cases [of "Some (Num 2000)" "Some \<lparr>safeTime = Num 4500, timestamp = Some (Num 2500)\<rparr>"
      "Snap (Some \<lparr>safeTime = Num 4500, timestamp = Some (Num 2500)\<rparr>)"]
    checkFile_cases [of "Some (Num 2000)" "Some \<lparr>safeTime = Num 1000, timestamp = Some (Num 500)\<rparr>"
      "Snap (Some \<lparr>safeTime = Num 1000, timestamp = Some (Num 500)\<rparr>)"]
  by simp

text \<open>
  Claim C2 (the code at the specification's example). With \<^verbatim>\<open>managedPaths\<close>
  \<^verbatim>\<open>["/node_modules"]\<close>, a file system whose \<^verbatim>\<open>join\<close> puts a slash between its arguments,
  and the two files of the example, \<^verbatim>\<open>getManagedItem\<close> returns the path up to the second
  separator after the managed path, \<^verbatim>\<open>/node_modules/@scope/pkg/lib\<close>; the snapshot has no
  \<^verbatim>\<open>fileTimestamps\<close> and no \<^verbatim>\<open>fileHashes\<close>, and its one \<^verbatim>\<open>managedItemInfo\<close> entry has that
  key, not \<^verbatim>\<open>/node_modules/@scope/pkg\<close>.
\<close>

theorem createSnapshot_scoped_package_example:
  "getManagedItem ''/node_modules/'' ''/node_modules/@scope/pkg/lib/x.js''
     = ''/node_modules/@scope/pkg/lib''
   \<and> managedPathsWithSlash
       (new_FileSystemInfo (fs\<lparr>join := \<lambda>a b. a @ ''/'' @ b\<rparr>) [''/node_modules''])
     = [''/node_modules/'']
   \<and> createSnapshot
       (new_FileSystemInfo (fs\<lparr>join := \<lambda>a b. a @ ''/'' @ b\<rparr>) [''/node_modules''])
       q (Some (Num 1574000000000))
       (Some [''/node_modules/@scope/pkg/lib/x.js'', ''/node_modules/@scope/pkg/lib/y.js''])
       None None False
     = [(None,
         \<lparr> startTime = Some (Num 1574000000000),
           fileTimestamps = None, fileHashes = None, contextTimestamps = None,
           contextHashes = None, missingTimestamps = None,
           managedItemInfo =
             Some [(''/node_modules/@scope/pkg/lib'',
                    case managedItemQueue q ''/node_modules/@scope/pkg/lib'' of
                      Inl err \<Rightarrow> SnapError | Inr entry \<Rightarrow> Snap entry)] \<rparr>)]"
proof -
  define fsi where
    "fsi = new_FileSystemInfo (fs\<lparr>join := \<lambda>a b. a @ ''/'' @ b\<rparr>) [''/node_modules'']"
  let ?x = "''/node_modules/@scope/pkg/lib/x.js''"
  let ?y = "''/node_modules/@scope/pkg/lib/y.js''"
  let ?lib = "''/node_modules/@scope/pkg/lib''"
  have item_x: "getManagedItem ''/node_modules/'' ?x = ?lib"
    by (simp add: getManagedItem_def)
  have item_y: "getManagedItem ''/node_modules/'' ?y = ?lib"
    by (simp add: getManagedItem_def)
  have mp: "managedPathsWithSlash fsi = [''/node_modules/'']"
    by (simp add: fsi_def new_FileSystemInfo_def)
  have c: "this_managedItems fsi = []"
    by (simp add: fsi_def new_FileSystemInfo_def)
  have mp_x: "managedPath_of fsi ?x = Some ''/node_modules/''"
    by (simp add: managedPath_of_def mp)
  have mp_y: "managedPath_of fsi ?y = Some ''/node_modules/''"
    by (simp add: managedPath_of_def mp)
  have loops: "createSnapshot_loops fsi (Some [?x, ?y]) None None False =
    \<lparr> jobs = Num 2, called = [], queued = [ManagedItemJob ?lib],
      local_fileTimestamps = [], local_fileHashes = [],
      local_contextTimestamps = [], local_contextHashes = [],
      local_missingTimestamps = [], local_managedItemInfo = [],
      managedItems = [?lib] \<rparr>"
    by (simp add: createSnapshot_loops_def for_each_def createSnapshot_file_def mp_x mp_y
        item_x item_y c set_add_def createSnapshot_managedItem_def createSnapshot_add_def Let_def)
  have sync: "createSnapshot_sync fsi (Some (Num 1574000000000)) (Some [?x, ?y]) None None False =
    \<lparr> jobs = Num 1, called = [], queued = [ManagedItemJob ?lib],
      local_fileTimestamps = [], local_fileHashes = [],
      local_contextTimestamps = [], local_contextHashes = [],
      local_missingTimestamps = [], local_managedItemInfo = [],
      managedItems = [?lib] \<rparr>"
    by (simp add: createSnapshot_sync_def loops createSnapshot_jobDone_def)
  have "createSnapshot fsi q (Some (Num 1574000000000)) (Some [?x, ?y]) None None False
     = [(None,
         \<lparr> startTime = Some (Num 1574000000000),
           fileTimestamps = None, fileHashes = None, contextTimestamps = None,
           contextHashes = None, missingTimestamps = None,
           managedItemInfo =
             Some [(?lib, case managedItemQueue q ?lib of
                      Inl err \<Rightarrow> SnapError | Inr entry \<Rightarrow> Snap entry)] \<rparr>)]"
    by (simp add: createSnapshot_def createSnapshot_in_order_def sync
        createSnapshot_callback_def createSnapshot_jobDone_def createSnapshot_snapshot_def
        nonempty_map_def)
  with item_x mp show ?thesis unfolding fsi_def by simp
qed

text \<open>
  Claim C3 (the code where only the first snapshot has a map). \<^verbatim>\<open>mergeMaps(a, undefined)\<close>
  throws a TypeError, and so does \<^verbatim>\<open>mergeSnapshots\<close> of a snapshot that has
  \<^verbatim>\<open>fileTimestamps\<close> with one that has no map.
\<close>

theorem mergeSnapshots_first_side_only_throws:
  "mergeMaps (Some [(''/a'', Snap None)]) (None :: (string, FileSystemInfoEntry option snap) jsmap option)
     = Inl TypeError
   \<and> mergeSnapshots
       \<lparr> startTime = Some (Num 1574000000000), fileTimestamps = Some [(''/a'', Snap None)],
         fileHashes = None, contextTimestamps = None, contextHashes = None,
         missingTimestamps = None, managedItemInfo = None \<rparr>
       \<lparr> startTime = Some (Num 1574000005000), fileTimestamps = None,
         fileHashes = None, contextTimestamps = None, contextHashes = None,
         missingTimestamps = None, managedItemInfo = None \<rparr>
     = Inl TypeError"
  by (simp add: mergeSnapshots_def mergeSnapshots_property_def mergeMaps_def)

text \<open>
  Claim C4. In timestamp mode, whatever the order in which the queues call back, the
  snapshot that \<^verbatim>\<open>createSnapshot\<close> passes to its callback has, for every directory of the
  input that starts with no managed path, the value \<^verbatim>\<open>"error"\<close> in \<^verbatim>\<open>contextTimestamps\<close>.
  And \<^verbatim>\<open>checkSnapshotValid\<close> on a snapshot whose \<^verbatim>\<open>contextTimestamps\<close> is not empty calls
  its callback once, with \<^verbatim>\<open>(null, false)\<close>, whatever the queues do.
\<close>

theorem directories_are_errors_and_invalidate:
  "(dir \<in> set directories
      \<and> \<not> (\<exists>managedPath \<in> set (managedPathsWithSlash this). prefix managedPath dir)
      \<and> mset order =
          mset (queued (createSnapshot_sync this startTime' files (Some directories) missing False))
    \<longrightarrow> (\<exists>snapshot m.
          createSnapshot_in_order this q startTime' files (Some directories) missing False order
            = [(None, snapshot)]
          \<and> contextTimestamps snapshot = Some m \<and> map_of m dir = Some SnapError))
   \<and> (contextTimestamps snapshot' = Some m' \<and> m' \<noteq> []
    \<longrightarrow> checkSnapshotValid_in_order this' q' snapshot' order' = [(None, False)]
        \<and> checkSnapshotValid this' q' snapshot' = [(None, False)])"
proof (intro conjI impI)
  assume a: "dir \<in> set directories
      \<and> \<not> (\<exists>managedPath \<in> set (managedPathsWithSlash this). prefix managedPath dir)
      \<and> mset order =
          mset (queued (createSnapshot_sync this startTime' files (Some directories) missing False))"
  let ?L = "createSnapshot_loops this files (Some directories) missing False"
  let ?F = "foldl (createSnapshot_store q) ?L order"
  from a have "length order = length (queued (createSnapshot_sync this startTime' files (Some directories) missing False))"
    by (metis size_mset)
  then have len: "length order = length (queued ?L)"
    by (simp add: createSnapshot_sync_def createSnapshot_jobDone_def Let_def)
  have res: "createSnapshot_in_order this q startTime' files (Some directories) missing False order
      = [(None, createSnapshot_snapshot startTime' ?F)]"
    by (rule createSnapshot_in_order_result [OF len])
  from a have "managedPath_of this dir = None" by (simp add: managedPath_of_None)
  with a have err: "map_of (local_contextTimestamps ?L) dir = Some SnapError"
    by (simp add: loops_contextTimestamps_error)
  then have ne: "local_contextTimestamps ?L \<noteq> []" by auto
  have "contextTimestamps (createSnapshot_snapshot startTime' ?F) = Some (local_contextTimestamps ?L)"
    using ne by (simp add: createSnapshot_snapshot_def nonempty_map_def foldl_store_contextTimestamps)
  with res err show "\<exists>snapshot m.
          createSnapshot_in_order this q startTime' files (Some directories) missing False order
            = [(None, snapshot)]
          \<and> contextTimestamps snapshot = Some m \<and> map_of m dir = Some SnapError"
    by simp
next
  assume b: "contextTimestamps snapshot' = Some m' \<and> m' \<noteq> []"
  then have "rejected (checkSnapshotValid_loops this' snapshot')"
    by (simp add: loops_rejected_contextTimestamps)
  then have r: "rejected (checkSnapshotValid_sync this' snapshot')"
    by (simp add: checkSnapshotValid_sync_def jobDone_rejected)
  have "\<And>os. rejected (foldl (checkSnapshotValid_callback (startTime snapshot') q')
           (checkSnapshotValid_sync this' snapshot') os)"
    using r by (rule callbacks_rejected)
  then have all: "\<And>os. checkSnapshotValid_in_order this' q' snapshot' os = [(None, False)]"
    by (simp add: checkSnapshotValid_in_order_def rejected_def)
  show "checkSnapshotValid_in_order this' q' snapshot' order' = [(None, False)]" by (rule all)
  show "checkSnapshotValid this' q' snapshot' = [(None, False)]"
    by (simp add: checkSnapshotValid_def all)
qed

theorem directories_are_errors_and_invalidate_witness:
  "(\<exists>snapshot m.
      createSnapshot_in_order (new_FileSystemInfo busy_file_system [''/node_modules''])
        busy_queues (Some (Num 1574000000000)) None (Some [''/src'']) None False []
        = [(None, snapshot)]
      \<and> contextTimestamps snapshot = Some m \<and> map_of m ''/src'' = Some SnapError)
   \<and> checkSnapshotValid (new_FileSystemInfo busy_file_system []) busy_queues
       (empty_snapshot\<lparr>contextTimestamps := Some [(''/src'', SnapError)]\<rparr>)
     = [(None, False)]"
proof -
  define fsi where "fsi = new_FileSystemInfo busy_file_system [''/node_modules'']"
  define snapshot where
    "snapshot = empty_snapshot\<lparr>contextTimestamps := Some [(''/src'', SnapError)]\<rparr>"
  have mp: "managedPathsWithSlash fsi = [''/node_modules/'']" "this_managedItems fsi = []"
    by (simp_all add: fsi_def new_FileSystemInfo_def busy_file_system_def)
  have unmanaged: "\<not> (\<exists>managedPath \<in> set (managedPathsWithSlash fsi). prefix managedPath ''/src'')"
    by (simp add: mp)
  have "queued (createSnapshot_sync fsi (Some (Num 1574000000000)) None (Some [''/src'']) None False)
      = []"
    by (simp add: createSnapshot_sync_def createSnapshot_loops_def for_each_def
        createSnapshot_directory_def managedPath_of_def mp createSnapshot_jobDone_def)
  then have order: "mset [] =
      mset (queued (createSnapshot_sync fsi (Some (Num 1574000000000)) None (Some [''/src'']) None False))"
    by simp
  have ct: "contextTimestamps snapshot = Some [(''/src'', SnapError)]"
    by (simp add: snapshot_def empty_snapshot_def)
  show ?thesis
    using directories_are_errors_and_invalidate
      [of "''/src''" "[''/src'']" fsi "[]" "Some (Num 1574000000000)" None None busy_queues
        snapshot "[(''/src'', SnapError)]" "new_FileSystemInfo busy_file_system []" busy_queues "[]"]
      unmanaged order ct
    unfolding fsi_def snapshot_def by simp
qed

text \<open>
  Claim C5. \<^verbatim>\<open>FS_ACCURACY\<close> starts at 2000. After \<^verbatim>\<open>applyMtime\<close> has processed any sequence
  of mtimes \<open>ms\<close> (nonzero or not), the accuracy is one of 1, 10, 100, 1000 and 2000;
  processing more mtimes \<open>ms'\<close> never gives a larger value; and the next integer mtime
  \<open>m\<close> tightens it by the stated rules: to 1 if the accuracy is above 1 and \<open>m mod 2 \<noteq> 0\<close>,
  else to 10 if it is above 10 and \<open>m mod 20 \<noteq> 0\<close>, else to 100 if it is above 100 and
  \<open>m mod 200 \<noteq> 0\<close>, else to 1000 if it is above 1000 and \<open>m mod 2000 \<noteq> 0\<close>, else not at
  all; which is the minimum of the accuracy and the value the unguarded rules name.
\<close>

theorem accuracy_starts_at_2000_and_only_tightens:
  "FS_ACCURACY_initial = 2000
   \<and> applyMtimes FS_ACCURACY_initial ms \<in> {1, 10, 100, 1000, 2000}
   \<and> applyMtimes FS_ACCURACY_initial (ms @ ms') \<le> applyMtimes FS_ACCURACY_initial ms
   \<and> applyMtime (applyMtimes FS_ACCURACY_initial ms) (Num m) =
       (let a = applyMtimes FS_ACCURACY_initial ms
        in if a > 1 \<and> m mod 2 \<noteq> 0 then 1
           else if a > 10 \<and> m mod 20 \<noteq> 0 then 10
           else if a > 100 \<and> m mod 200 \<noteq> 0 then 100
           else if a > 1000 \<and> m mod 2000 \<noteq> 0 then 1000
           else a)
   \<and> applyMtime (applyMtimes FS_ACCURACY_initial ms) (Num m) =
       min (applyMtimes FS_ACCURACY_initial ms) (accuracy_rule m)"
proof -
  let ?a = "applyMtimes FS_ACCURACY_initial ms"
  have a: "?a \<in> accuracy_values"
    by (rule applyMtimes_values [OF initial_accuracy_value])
  have "applyMtimes ?a ms' \<le> ?a"
    by (rule applyMtimes_le [OF a])
  then have mono: "applyMtimes FS_ACCURACY_initial (ms @ ms') \<le> ?a"
    by (simp add: applyMtimes_append)
  have guarded: "applyMtime ?a (Num m) =
       (let a = ?a
        in if a > 1 \<and> m mod 2 \<noteq> 0 then 1
           else if a > 10 \<and> m mod 20 \<noteq> 0 then 10
           else if a > 100 \<and> m mod 200 \<noteq> 0 then 100
           else if a > 1000 \<and> m mod 2000 \<noteq> 0 then 1000
           else a)"
    by (simp add: applyMtime_def js_rem_eq_0_iff Let_def)
  show ?thesis
    using a mono guarded applyMtime_rule [OF a, of m]
    by (simp add: FS_ACCURACY_initial_def accuracy_values_def)
qed

theorem accuracy_starts_at_2000_and_only_tightens_witness:
  "applyMtimes FS_ACCURACY_initial [Num 1574000000010, Num 1574000000300] = 10
   \<and> applyMtimes FS_ACCURACY_initial [Num 1574000000010, Num 1574000000300, Num 1574000000007]
       \<le> 10
   \<and> applyMtime 10 (Num 1574000000007) = 1"
proof -
  have ten: "applyMtimes FS_ACCURACY_initial [Num 1574000000010, Num 1574000000300] = 10"
    by (simp add: applyMtimes_def applyMtime_def FS_ACCURACY_initial_def js_rem_def)
  show ?thesis
    using accuracy_starts_at_2000_and_only_tightens
      [of "[Num 1574000000010, Num 1574000000300]" "[Num 1574000000007]" 1574000000007]
    by (simp add: ten accuracy_rule_def)
qed

text \<open>
  Claim C6, amended. After a successful \<^verbatim>\<open>stat\<close>, \<^verbatim>\<open>_readFileTimestamp\<close> stores in
  \<^verbatim>\<open>this._fileTimestamps\<close> and passes to its callback one entry. For a nonzero mtime its
  \<^verbatim>\<open>safeTime\<close> is the mtime plus the accuracy as this very mtime has tightened it
  (\<^verbatim>\<open>FS_ACCURACY\<close> after \<^verbatim>\<open>applyMtime(mtime)\<close>), not the accuracy in effect before the read;
  for an mtime of 0 and for an invalid date it is \<^verbatim>\<open>Infinity\<close>. Its \<^verbatim>\<open>timestamp\<close> is the
  mtime, and is \<^verbatim>\<open>undefined\<close> for a directory.
\<close>

theorem readFileTimestamp_entry:
  "stat fs path = Inr st \<Longrightarrow>
   (\<exists>this' ts. readFileTimestamp fs this path = (this', Inr (Some ts))
      \<and> map_of (this_fileTimestamps this') path = Some (Some ts)
      \<and> (case Stats.mtime st of
            Date m \<Rightarrow>
              if m \<noteq> 0 then
                FS_ACCURACY this' = applyMtime (FS_ACCURACY this) (Num m)
                \<and> safeTime ts = Num (m + FS_ACCURACY this')
              else safeTime ts = PosInf
          | InvalidDate \<Rightarrow> safeTime ts = PosInf)
      \<and> timestamp ts = (if isDirectory st then None else Some (to_number (Stats.mtime st))))"
  by (cases "Stats.mtime st")
     (simp_all add: readFileTimestamp_def Let_def map_of_map_set)

theorem readFileTimestamp_entry_witness:
  "\<exists>this'. readFileTimestamp
       (busy_file_system\<lparr>stat := \<lambda>path. Inr \<lparr>mtime = Date 2500, isFile = True, isDirectory = False\<rparr>\<rparr>)
       (new_FileSystemInfo busy_file_system []) ''/a''
     = (this', Inr (Some \<lparr>safeTime = Num 2600, timestamp = Some (Num 2500)\<rparr>))
     \<and> FS_ACCURACY this' = 100
     \<and> map_of (this_fileTimestamps this') ''/a''
         = Some (Some \<lparr>safeTime = Num 2600, timestamp = Some (Num 2500)\<rparr>)"
proof -
  define fs where
    "fs = busy_file_system\<lparr>stat := \<lambda>path. Inr \<lparr>mtime = Date 2500, isFile = True, isDirectory = False\<rparr>\<rparr>"
  define this where "this = new_FileSystemInfo busy_file_system []"
  have s: "stat fs ''/a'' = Inr \<lparr>mtime = Date 2500, isFile = True, isDirectory = False\<rparr>"
    by (simp add: fs_def)
  have a: "FS_ACCURACY this = 2000"
    by (simp add: this_def new_FileSystemInfo_def FS_ACCURACY_initial_def)
  have acc: "applyMtime 2000 (Num 2500) = 100"
    by (simp add: applyMtime_def js_rem_def)
  from readFileTimestamp_entry [OF s, of this]
  obtain this' ts where r: "readFileTimestamp fs this ''/a'' = (this', Inr (Some ts))"
    and m: "map_of (this_fileTimestamps this') ''/a'' = Some (Some ts)"
    and t: "FS_ACCURACY this' = 100" "safeTime ts = Num 2600" "timestamp ts = Some (Num 2500)"
    by (auto simp: a acc)
  from t have "ts = \<lparr>safeTime = Num 2600, timestamp = Some (Num 2500)\<rparr>" by simp
  with r m t show ?thesis unfolding fs_def this_def by blast
qed

text \<open>
  Claim C6 read with the accuracy in effect before the read: it fails at an mtime of 2500
  read at the initial accuracy 2000, where \<^verbatim>\<open>safeTime\<close> is 2600 and not 4500.
\<close>

theorem readFileTimestamp_prior_accuracy_counterexample:
  "FS_ACCURACY (new_FileSystemInfo busy_file_system []) = 2000
   \<and> snd (readFileTimestamp
       (busy_file_system\<lparr>stat := \<lambda>path. Inr \<lparr>mtime = Date 2500, isFile = True, isDirectory = False\<rparr>\<rparr>)
       (new_FileSystemInfo busy_file_system []) ''/a'')
     = Inr (Some \<lparr>safeTime = Num 2600, timestamp = Some (Num 2500)\<rparr>)
   \<and> Num 2600 \<noteq> Num (2500 + FS_ACCURACY (new_FileSystemInfo busy_file_system []))"
proof -
  have a: "FS_ACCURACY (new_FileSystemInfo busy_file_system []) = 2000"
    by (simp add: new_FileSystemInfo_def FS_ACCURACY_initial_def)
  have acc: "applyMtime 2000 (Num 2500) = 100"
    by (simp add: applyMtime_def js_rem_def)
  show ?thesis
    by (simp add: a acc readFileTimestamp_def Let_def)
qed

text \<open>
  Claim C7 (the code on two snapshots with disjoint keys). A snapshot with one file hash
  and a snapshot without maps merge into the first one in one order, and
  \<^verbatim>\<open>mergeSnapshots\<close> throws a TypeError in the other order.
\<close>

theorem mergeSnapshots_not_commutative_example:
  "mergeSnapshots
       \<lparr> startTime = None, fileTimestamps = None, fileHashes = None,
         contextTimestamps = None, contextHashes = None,
         missingTimestamps = None, managedItemInfo = None \<rparr>
       \<lparr> startTime = None, fileTimestamps = None,
         fileHashes = Some [(''/x'', Snap (Some ''0f''))], contextTimestamps = None,
         contextHashes = None, missingTimestamps = None, managedItemInfo = None \<rparr>
     = Inr \<lparr> startTime = None, fileTimestamps = None,
         fileHashes = Some [(''/x'', Snap (Some ''0f''))], contextTimestamps = None,
         contextHashes = None, missingTimestamps = None, managedItemInfo = None \<rparr>
   \<and> mergeSnapshots
       \<lparr> startTime = None, fileTimestamps = None,
         fileHashes = Some [(''/x'', Snap (Some ''0f''))], contextTimestamps = None,
         contextHashes = None, missingTimestamps = None, managedItemInfo = None \<rparr>
       \<lparr> startTime = None, fileTimestamps = None, fileHashes = None,
         contextTimestamps = None, contextHashes = None,
         missingTimestamps = None, managedItemInfo = None \<rparr>
     = Inl TypeError"
  by (simp add: mergeSnapshots_def mergeSnapshots_property_def mergeMaps_def
      mergeSnapshots_startTime_def)

text \<open>
  Claim C8 (the code on a snapshot with the hash of a directory, when the \<^verbatim>\<open>stat\<close> of a
  child of the directory fails). \<^verbatim>\<open>checkSnapshotValid\<close> finds no cached hash for \<^verbatim>\<open>/d\<close>
  and adds one callback to the context hash queue. \<^verbatim>\<open>_readContextHash\<close> reads the
  directory, the \<^verbatim>\<open>stat\<close> of its child \<^verbatim>\<open>x\<close> fails with \<^verbatim>\<open>EBUSY\<close>, and the last callback of
  \<^verbatim>\<open>asyncLib.map\<close> throws: nothing is stored and the processor's callback is not called.
  With that one callback never called back, \<^verbatim>\<open>checkSnapshotValid\<close> has not called its
  callback at all, neither with \<^verbatim>\<open>(null, false)\<close> nor with \<^verbatim>\<open>(null, true)\<close>.
\<close>

theorem checkSnapshotValid_context_hash_never_calls_back:
  "queued (checkSnapshotValid_sync (new_FileSystemInfo busy_file_system [])
       (empty_snapshot\<lparr>contextHashes := Some [(''/d'', Snap (Some ''0f''))]\<rparr>))
     = [ContextHashProbe ''/d'' (Snap (Some ''0f''))]
   \<and> readContextHash (busy_file_system\<lparr>readdir := \<lambda>path. Inr [''x'']\<rparr>) (\<lambda>file. file)
       busy_queues (new_FileSystemInfo busy_file_system []) ''/d''
     = (new_FileSystemInfo busy_file_system [], None)
   \<and> checkSnapshotValid_in_order (new_FileSystemInfo busy_file_system []) busy_queues
       (empty_snapshot\<lparr>contextHashes := Some [(''/d'', Snap (Some ''0f''))]\<rparr>) []
     = []"
proof -
  define fsi where "fsi = new_FileSystemInfo busy_file_system []"
  define snapshot where
    "snapshot = empty_snapshot\<lparr>contextHashes := Some [(''/d'', Snap (Some ''0f''))]\<rparr>"
  have c: "this_fileTimestamps fsi = []" "this_fileHashes fsi = []" "this_contextHashes fsi = []"
    by (simp_all add: fsi_def new_FileSystemInfo_def)
  have s: "startTime snapshot = None" "fileTimestamps snapshot = None"
    "fileHashes snapshot = None" "contextTimestamps snapshot = None"
    "contextHashes snapshot = Some [(''/d'', Snap (Some ''0f''))]"
    "missingTimestamps snapshot = None"
    by (simp_all add: snapshot_def empty_snapshot_def)
  have sync: "checkSnapshotValid_sync fsi snapshot =
      \<lparr> jobs = Num 1, called = [], queued = [ContextHashProbe ''/d'' (Snap (Some ''0f''))] \<rparr>"
    by (simp add: checkSnapshotValid_sync_def checkSnapshotValid_loops_def c s
        checkSnapshotValid_loop_def checkSnapshotValid_entry_def checkSnapshotValid_jobDone_def)
  have child: "readContextHash_child (busy_file_system\<lparr>readdir := \<lambda>path. Inr [''x'']\<rparr>)
      busy_queues fsi ''/d'' ''x'' = Inl (SystemError ''EBUSY'')"
    by (simp add: readContextHash_child_def busy_file_system_def)
  have files: "sort (filter (\<lambda>file. \<not> prefix ''.'' file) (map (\<lambda>file. file) [''x''])) = [''x'']"
    by simp
  have read: "readContextHash (busy_file_system\<lparr>readdir := \<lambda>path. Inr [''x'']\<rparr>) (\<lambda>file. file)
      busy_queues fsi ''/d'' = (fsi, None)"
    unfolding readContextHash_def Let_def files by (simp add: child)
  have "checkSnapshotValid_in_order fsi busy_queues snapshot [] = []"
    by (simp add: checkSnapshotValid_in_order_def sync)
  with sync read show ?thesis unfolding fsi_def snapshot_def by simp
qed

text \<open>
  Claim C9, amended. For a pack entry that carries data: if it arrived inline and its size
  is above \<^verbatim>\<open>MAX_INLINE_SIZE\<close>, \<^verbatim>\<open>_unpack\<close> sets \<^verbatim>\<open>invalid\<close> and returns the data, and a
  pack deserialized from a sequence that holds the entry inline is invalid; if it arrived
  lazy and its size is at most \<^verbatim>\<open>MAX_INLINE_SIZE\<close>, \<^verbatim>\<open>_unpack\<close> sets \<^verbatim>\<open>invalid\<close>, stores
  the data in the content map under the identifier, where the loader was, and returns
  the data. For an entry without data, whatever its size and its tier, \<^verbatim>\<open>_unpack\<close>
  records the identifier as unserializable, forgets its size, leaves \<^verbatim>\<open>invalid\<close> and the
  content map as they were, and returns \<^verbatim>\<open>undefined\<close>.
\<close>

theorem unpack_migration:
  "(data entry = Some d \<longrightarrow>
      (undef_gt (size' entry) MAX_INLINE_SIZE \<longrightarrow>
         invalid (fst (unpack this identifier entry True))
         \<and> snd (unpack this identifier entry True) = Some d
         \<and> ((identifier, Inline entry) \<in> set items \<longrightarrow>
              invalid (deserialize this version' etags' unserializable' lastAccess' buildSnapshot' items)))
      \<and> (undef_le (size' entry) MAX_INLINE_SIZE \<longrightarrow>
         invalid (fst (unpack this identifier entry False))
         \<and> map_of (content (fst (unpack this identifier entry False))) identifier = Some (Data (Some d))
         \<and> snd (unpack this identifier entry False) = Some d))
   \<and> (data entry = None \<longrightarrow>
      identifier \<in> set (unserializable (fst (unpack this identifier entry currentlyInline)))
      \<and> map_of (lastSizes (fst (unpack this identifier entry currentlyInline))) identifier = None
      \<and> invalid (fst (unpack this identifier entry currentlyInline)) = invalid this
      \<and> content (fst (unpack this identifier entry currentlyInline)) = content this
      \<and> snd (unpack this identifier entry currentlyInline) = None)"
proof (intro conjI impI)
  assume "data entry = None"
  then have u: "unpack this identifier entry currentlyInline =
      (this\<lparr>unserializable := set_add (unserializable this) identifier,
            lastSizes := map_delete (lastSizes this) identifier\<rparr>, None)"
    by (simp add: unpack_def)
  show "identifier \<in> set (unserializable (fst (unpack this identifier entry currentlyInline)))"
    by (simp add: u set_add_def)
  show "map_of (lastSizes (fst (unpack this identifier entry currentlyInline))) identifier = None"
    by (simp add: u map_of_map_delete)
  show "invalid (fst (unpack this identifier entry currentlyInline)) = invalid this"
    by (simp add: u)
  show "content (fst (unpack this identifier entry currentlyInline)) = content this"
    by (simp add: u)
  show "snd (unpack this identifier entry currentlyInline) = None"
    by (simp add: u)
next
  assume d: "data entry = Some d" and big: "undef_gt (size' entry) MAX_INLINE_SIZE"
  then show "invalid (fst (unpack this identifier entry True))"
    and "snd (unpack this identifier entry True) = Some d"
    by (simp_all add: unpack_def Let_def)
  assume "(identifier, Inline entry) \<in> set items"
  then show "invalid (deserialize this version' etags' unserializable' lastAccess' buildSnapshot' items)"
    using d big by (simp add: deserialize_def foldl_deserialize_entry_invalid)
next
  assume "data entry = Some d" and "undef_le (size' entry) MAX_INLINE_SIZE"
  then show "invalid (fst (unpack this identifier entry False))"
    and "map_of (content (fst (unpack this identifier entry False))) identifier = Some (Data (Some d))"
    and "snd (unpack this identifier entry False) = Some d"
    by (simp_all add: unpack_def Let_def map_of_map_set)
qed

theorem unpack_migration_witness:
  "invalid (fst (unpack (new_Pack ''v1'') ''id'' \<lparr>data = Some ''big'', size' = Some 50000\<rparr> True))
   \<and> invalid (deserialize (new_Pack ''v1'') ''v1'' [] [] [] None
        [(''id'', Inline \<lparr>data = Some ''big'', size' = Some 50000\<rparr>)])
   \<and> invalid (fst (unpack (new_Pack ''v1'') ''id'' \<lparr>data = Some ''small'', size' = Some 100\<rparr> False))
   \<and> map_of (content (fst (unpack (new_Pack ''v1'') ''id'' \<lparr>data = Some ''small'', size' = Some 100\<rparr> False))) ''id''
       = Some (Data (Some ''small''))
   \<and> ''id'' \<in> set (unserializable (fst (unpack (new_Pack ''v1'') ''id''
        \<lparr>data = (None :: string option), size' = Some 5\<rparr> False)))
   \<and> content (fst (unpack (new_Pack ''v1'') ''id''
        \<lparr>data = (None :: string option), size' = Some 5\<rparr> False)) = []"
  using unpack_migration [of "\<lparr>data = Some ''big'', size' = Some 50000\<rparr>" "''big''" "new_Pack ''v1''" "''id''"
      "[(''id'', Inline \<lparr>data = Some ''big'', size' = Some 50000\<rparr>)]" "''v1''" "[]" "[]" "[]" None]
    unpack_migration [of "\<lparr>data = Some ''small'', size' = Some 100\<rparr>" "''small''" "new_Pack ''v1''" "''id''"]
    unpack_migration [of "\<lparr>data = (None :: string option), size' = Some 5\<rparr>" _ "new_Pack ''v1''" "''id''" _ _ _ _ _ _ False]
  by (simp add: MAX_INLINE_SIZE_def new_Pack_def)

text \<open>
  Claim C9 as stated fails for an entry without data: one that arrived lazy with
  \<^verbatim>\<open>data\<close> \<^verbatim>\<open>undefined\<close> and a size of 5 leaves \<^verbatim>\<open>invalid\<close> false.
\<close>

theorem unpack_without_data_counterexample:
  "undef_le (size' \<lparr>data = (None :: string option), size' = Some 5\<rparr>) MAX_INLINE_SIZE
   \<and> \<not> invalid (fst (unpack (new_Pack ''v1'') ''id'' \<lparr>data = (None :: string option), size' = Some 5\<rparr> False))"
  by (simp add: unpack_def new_Pack_def MAX_INLINE_SIZE_def)

text \<open>
  Claim C10. Against an absent \<^verbatim>\<open>startTime\<close>, \<^verbatim>\<open>current.safeTime > startTime\<close> is false for
  every \<^verbatim>\<open>safeTime\<close>, so \<^verbatim>\<open>checkFile\<close> is the existence check together with the equality
  of the timestamps where the snapshot's is defined. A snapshot that \<^verbatim>\<open>createSnapshot\<close>
  makes for an \<^verbatim>\<open>undefined\<close> \<^verbatim>\<open>startTime\<close> has no \<^verbatim>\<open>startTime\<close>, whatever the order in which
  the queues call back; the snapshot of \<^verbatim>\<open>storeBuildDependencies\<close> is one.
\<close>

theorem no_startTime_no_freshness_check:
  "\<not> js_gt_undef t None
   \<and> checkFile None current snap =
       (checkExistance current snap
        \<and> \<not> (\<exists>c se. current = Some c \<and> snap = Snap (Some se) \<and> timestamp se \<noteq> None
                 \<and> js_strict_ne (timestamp c) (timestamp se)))
   \<and> (mset order = mset (queued (createSnapshot_sync this None files directories missing hash))
      \<longrightarrow> (\<exists>snapshot. createSnapshot_in_order this q None files directories missing hash order
                        = [(None, snapshot)]
                      \<and> startTime snapshot = None))
   \<and> (\<exists>snapshot. storeBuildDependencies_createSnapshot this q files' directories' missing'
                    = [(None, snapshot)]
                  \<and> startTime snapshot = None)"
proof -
  have res: "\<exists>snapshot. createSnapshot_in_order this q None fs ds ms h os = [(None, snapshot)]
                      \<and> startTime snapshot = None"
    if "length os = length (queued (createSnapshot_sync this None fs ds ms h))" for fs ds ms h os
  proof -
    from that have "length os = length (queued (createSnapshot_loops this fs ds ms h))"
      by (simp add: createSnapshot_sync_def createSnapshot_jobDone_def Let_def)
    from createSnapshot_in_order_result [OF this, of q None]
    show ?thesis by (simp add: createSnapshot_snapshot_def)
  qed
  have cf: "checkFile None current snap =
       (checkExistance current snap
        \<and> \<not> (\<exists>c se. current = Some c \<and> snap = Snap (Some se) \<and> timestamp se \<noteq> None
                 \<and> js_strict_ne (timestamp c) (timestamp se)))"
  proof (cases snap)
    case SnapError
    then show ?thesis by simp
  next
    case (Snap s)
    then show ?thesis
      by (cases current; cases s) (auto simp: is_defined_iff)
  qed
  have order: "mset order = mset (queued (createSnapshot_sync this None files directories missing hash))
      \<longrightarrow> (\<exists>snapshot. createSnapshot_in_order this q None files directories missing hash order
                        = [(None, snapshot)]
                      \<and> startTime snapshot = None)"
    using res [of order files directories missing hash] by (metis size_mset)
  have store: "\<exists>snapshot. storeBuildDependencies_createSnapshot this q files' directories' missing'
                    = [(None, snapshot)]
                  \<and> startTime snapshot = None"
    unfolding storeBuildDependencies_createSnapshot_def createSnapshot_def
    by (rule res) simp
  show ?thesis using cf order store by simp
qed

theorem no_startTime_no_freshness_check_witness:
  "checkFile None (Some \<lparr>safeTime = Num 4500, timestamp = Some (Num 2500)\<rparr>)
       (Snap (Some \<lparr>safeTime = Num 4500, timestamp = Some (Num 2500)\<rparr>))
   \<and> \<not> checkFile (Some (Num 2000)) (Some \<lparr>safeTime = Num 4500, timestamp = Some (Num 2500)\<rparr>)
       (Snap (Some \<lparr>safeTime = Num 4500, timestamp = Some (Num 2500)\<rparr>))
   \<and> (\<exists>snapshot. createSnapshot_in_order (new_FileSystemInfo busy_file_system []) busy_queues None
          (Some [''/a'']) None None True [FileHashJob ''/a''] = [(None, snapshot)]
        \<and> startTime snapshot = None)"
proof -
  define this where "this = new_FileSystemInfo busy_file_system []"
  have c: "this_fileHashes this = []" "managedPathsWithSlash this = []" "this_managedItems this = []"
    by (simp_all add: this_def new_FileSystemInfo_def)
  have q: "queued (createSnapshot_sync this None (Some [''/a'']) None None True) = [FileHashJob ''/a'']"
    by (simp add: createSnapshot_sync_def createSnapshot_loops_def for_each_def
        createSnapshot_file_def managedPath_of_def c createSnapshot_add_def
        createSnapshot_jobDone_def)
  show ?thesis
    using no_startTime_no_freshness_check
      [of "Num 4500" "Some \<lparr>safeTime = Num 4500, timestamp = Some (Num 2500)\<rparr>"
        "Snap (Some \<lparr>safeTime = Num 4500, timestamp = Some (Num 2500)\<rparr>)"
        "[FileHashJob ''/a'']" this "Some [''/a'']" None None True busy_queues]
      q
    unfolding this_def by simp
qed

end
